theory Spec2Isabelle
  imports Main
begin

section \<open>Strings and the regular expressions of the scanner\<close>

text \<open>
  A Python \<open>str\<close> is modelled as a \<open>string\<close> whose characters are code points below 256.
  On that range the character classes below are exactly Python's: \<open>[0-9]\<close> and \<open>\d\<close> are
  the ten ASCII digits, \<open>[a-z]\<close> the ASCII lower-case letters, and \<open>re.IGNORECASE\<close> on an
  ASCII literal is ASCII case folding.
\<close>

definition dquote :: char where
  "dquote = CHR 0x22"

definition squote :: char where
  "squote = CHR 0x27"

definition is_digit :: "char \<Rightarrow> bool" where
  "is_digit c = (48 \<le> (of_char c :: nat) \<and> (of_char c :: nat) \<le> 57)"

definition is_lower :: "char \<Rightarrow> bool" where
  "is_lower c = (97 \<le> (of_char c :: nat) \<and> (of_char c :: nat) \<le> 122)"

definition is_upper :: "char \<Rightarrow> bool" where
  "is_upper c = (65 \<le> (of_char c :: nat) \<and> (of_char c :: nat) \<le> 90)"

definition lower_ascii :: "char \<Rightarrow> char" where
  "lower_ascii c = (if is_upper c then char_of ((of_char c :: nat) + 32) else c)"

text \<open>The class \<open>[0-9.]\<close>.\<close>

definition ver_char :: "char \<Rightarrow> bool" where
  "ver_char c = (is_digit c \<or> c = CHR ''.'')"

text \<open>The class \<open>\s\<close> of a \<open>str\<close> pattern, on code points below 256.\<close>

definition is_space :: "char \<Rightarrow> bool" where
  "is_space c = (let n = (of_char c :: nat) in
     (9 \<le> n \<and> n \<le> 13) \<or> (28 \<le> n \<and> n \<le> 32) \<or> n = 133 \<or> n = 160)"

text \<open>The class \<open>[^/'"]\<close>.\<close>

definition slug_char :: "char \<Rightarrow> bool" where
  "slug_char c = (c \<noteq> CHR ''/'' \<and> c \<noteq> squote \<and> c \<noteq> dquote)"

text \<open>Equality of a pattern character and a subject character, with and without
  \<open>re.IGNORECASE\<close>.\<close>

definition ci_eq :: "char \<Rightarrow> char \<Rightarrow> bool" where
  "ci_eq p c = (lower_ascii p = lower_ascii c)"

definition cs_eq :: "char \<Rightarrow> char \<Rightarrow> bool" where
  "cs_eq p c = (p = c)"

text \<open>\<open>match_lit eq p s\<close> matches the literal \<open>p\<close> at the start of \<open>s\<close> and returns the
  rest of \<open>s\<close>.\<close>

fun match_lit :: "(char \<Rightarrow> char \<Rightarrow> bool) \<Rightarrow> string \<Rightarrow> string \<Rightarrow> string option" where
  "match_lit eq [] s = Some s"
| "match_lit eq (p # ps) [] = None"
| "match_lit eq (p # ps) (c # cs) = (if eq p c then match_lit eq ps cs else None)"

text \<open>Python's \<open>sub in s\<close> on strings.\<close>

fun contains :: "string \<Rightarrow> string \<Rightarrow> bool" where
  "contains sub [] = (sub = [])"
| "contains sub (c # cs) = (match_lit cs_eq sub (c # cs) \<noteq> None \<or> contains sub cs)"

text \<open>\<open>re.search\<close> with a matcher \<open>m\<close> for the pattern anchored at a position: the
  leftmost position where \<open>m\<close> succeeds wins.\<close>

fun re_search :: "(string \<Rightarrow> 'a option) \<Rightarrow> string \<Rightarrow> 'a option" where
  "re_search m [] = m []"
| "re_search m (c # cs) = (case m (c # cs) of Some g \<Rightarrow> Some g | None \<Rightarrow> re_search m cs)"

text \<open>
  \<open><meta name="generator" content="WordPress ([0-9.]+)"\<close> at a position (scanner.py line 36).
  The greedy group is followed by a character outside its class, so backtracking into the
  group never helps: the match exists exactly when the maximal run of \<open>[0-9.]\<close> is not empty
  and is followed by the closing quote.
\<close>

definition generator_prefix :: string where
  "generator_prefix =
     ''<meta name='' @ [dquote] @ ''generator'' @ [dquote] @ '' content='' @ [dquote] @ ''WordPress ''"

definition generator_at :: "string \<Rightarrow> string option" where
  "generator_at s =
     (case match_lit ci_eq generator_prefix s of
        None \<Rightarrow> None
      | Some r \<Rightarrow>
          (let g = takeWhile ver_char r in
           if g \<noteq> [] \<and> match_lit ci_eq [dquote] (dropWhile ver_char r) \<noteq> None
           then Some g else None))"

text \<open>
  \<open>Stable tag:\s*([0-9.]+)\<close> at a position (scanner.py line 71). \<open>\s\<close> and \<open>[0-9.]\<close> are
  disjoint, so giving back white space never helps either: the group is the maximal run of
  \<open>[0-9.]\<close> after the maximal run of white space, and must not be empty.
\<close>

definition stable_tag_at :: "string \<Rightarrow> string option" where
  "stable_tag_at s =
     (case match_lit ci_eq ''Stable tag:'' s of
        None \<Rightarrow> None
      | Some r \<Rightarrow>
          (let g = takeWhile ver_char (dropWhile is_space r) in
           if g \<noteq> [] then Some g else None))"

text \<open>\<open>str.rstrip('/')\<close>.\<close>

definition rstrip_slash :: "string \<Rightarrow> string" where
  "rstrip_slash s = rev (dropWhile (\<lambda>c. c = CHR ''/'') (rev s))"

section \<open>The HTTP session\<close>

text \<open>
  \<open>urljoin\<close> is kept symbolic: a request to \<open>urljoin(base, rel)\<close> is the request to
  \<open>Urljoin base rel\<close>. A URL built by an f-string is \<open>Url\<close> of the built string.
\<close>

datatype url = Url string | Urljoin string string

text \<open>
  A decoded JSON document. A number is kept as an integer: the scanner only tests a number
  for truth and hands it to \<open>LooseVersion\<close>, where every number that is not a string
  behaves alike.
\<close>

datatype json =
    JNull
  | JBool bool
  | JNum int
  | JStr string
  | JArr "json list"
  | JObj "(string \<times> json) list"

datatype exn =
    RequestException string
  | JSONDecodeError
  | AttributeError
  | TypeError
  | OtherException string

text \<open>\<open>resp_json\<close> is what \<open>response.json()\<close> returns, \<open>None\<close> when it raises.\<close>

record response =
  status_code :: nat
  resp_url :: string
  resp_text :: string
  resp_json :: "json option"

datatype reply = Raises exn | Reply response

text \<open>A request is its method, its URL and the value of the \<open>Authorization\<close> header, if
  the call sets one.\<close>

datatype meth = GET | HEAD

record request =
  req_meth :: meth
  req_url :: url
  req_auth :: "string option"

definition get_req :: "url \<Rightarrow> request" where
  "get_req u = \<lparr>req_meth = GET, req_url = u, req_auth = None\<rparr>"

definition head_req :: "url \<Rightarrow> request" where
  "head_req u = \<lparr>req_meth = HEAD, req_url = u, req_auth = None\<rparr>"

text \<open>
  The network as one scan sees it: the reply to each request. A request that is sent twice
  during a scan gets the same reply, so that the replies do not depend on the order in
  which the worker pool sends its requests.
\<close>

type_synonym network = "request \<Rightarrow> reply"

text \<open>
  A call of \<open>session.get\<close> or \<open>session.head\<close> where the requests sent so far are
  recorded: the call yields its reply and enters its request in the record. The methods
  that come with a record of their requests send every request through \<open>send\<close>.
\<close>

definition send :: "network \<Rightarrow> request \<Rightarrow> request list \<Rightarrow> reply \<times> request list" where
  "send net req sent = (net req, sent @ [req])"

section \<open>WordPress detection (\<open>WordPressScanner.is_wordpress\<close>)\<close>

text \<open>The dictionary \<open>indicators\<close>; its key \<open>is_wordpress\<close> is the field
  \<open>is_wordpress_flag\<close>, and \<open>None\<close> in \<open>wp_error\<close> is the absent key \<open>error\<close>.\<close>

record indicators =
  is_wordpress_flag :: bool
  confidence :: int
  wp_detected_by :: "string list"
  wp_version :: "string option"
  wp_url :: string
  wp_error :: "string option"

definition init_indicators :: "string \<Rightarrow> indicators" where
  "init_indicators target_url =
     \<lparr>is_wordpress_flag = False, confidence = 0, wp_detected_by = [], wp_version = None,
      wp_url = target_url, wp_error = None\<rparr>"

text \<open>Lines 33 to 35: the path signal.\<close>

definition paths_signal :: "string \<Rightarrow> bool" where
  "paths_signal html = (contains ''/wp-content/'' html \<or> contains ''/wp-includes/'' html)"

definition check_paths :: "string \<Rightarrow> indicators \<Rightarrow> indicators" where
  "check_paths html i =
     (if paths_signal html
      then i\<lparr>wp_detected_by := wp_detected_by i @ [''wp-content/wp-includes paths''],
             confidence := confidence i + 30\<rparr>
      else i)"

text \<open>Lines 36 to 40: the generator tag.\<close>

definition check_generator :: "string \<Rightarrow> indicators \<Rightarrow> indicators" where
  "check_generator html i =
     (case re_search generator_at html of
        Some v \<Rightarrow> i\<lparr>wp_detected_by := wp_detected_by i @ [''meta generator tag''],
                     wp_version := Some v,
                     confidence := confidence i + 40\<rparr>
      | None \<Rightarrow> i)"

text \<open>Lines 41 to 48: the REST probe; the bare \<open>except\<close> swallows every exception.\<close>

definition api_signal :: "network \<Rightarrow> string \<Rightarrow> bool" where
  "api_signal net target_url =
     (case net (get_req (Urljoin target_url ''/wp-json/'')) of
        Raises e \<Rightarrow> False
      | Reply a \<Rightarrow> status_code a = 200 \<and> contains ''namespaces'' (resp_text a))"

definition check_api :: "network \<Rightarrow> string \<Rightarrow> indicators \<Rightarrow> indicators" where
  "check_api net target_url i =
     (if api_signal net target_url
      then i\<lparr>wp_detected_by := wp_detected_by i @ [''REST API endpoint''],
             confidence := confidence i + 30\<rparr>
      else i)"

text \<open>Lines 49 and 50.\<close>

definition decide :: "indicators \<Rightarrow> indicators" where
  "decide i = (if confidence i \<ge> 30 then i\<lparr>is_wordpress_flag := True\<rparr> else i)"

text \<open>
  The method returns the indicators and leaves \<open>self.target_url\<close> updated (line 31); the
  model returns both. Only \<open>requests.RequestException\<close> is caught (line 51): any other
  exception of the root fetch leaves the method, which is the \<open>Inl\<close> result.
\<close>

definition is_wordpress :: "network \<Rightarrow> string \<Rightarrow> exn + (indicators \<times> string)" where
  "is_wordpress net target_url =
     (case net (get_req (Url target_url)) of
        Raises (RequestException msg) \<Rightarrow>
          Inr ((init_indicators target_url)\<lparr>wp_error := Some msg\<rparr>, target_url)
      | Raises e \<Rightarrow> Inl e
      | Reply r \<Rightarrow>
          (let target_url' = rstrip_slash (resp_url r);
               html = resp_text r
           in Inr (decide (check_api net target_url'
                     (check_generator html (check_paths html (init_indicators target_url)))),
                   target_url')))"

text \<open>The sum of the weights of the matched signals.\<close>

definition signal_sum :: "bool \<Rightarrow> bool \<Rightarrow> bool \<Rightarrow> int" where
  "signal_sum paths gen api =
     (if paths then 30 else 0) + (if gen then 40 else 0) + (if api then 30 else 0)"

section \<open>Plugin probing (\<open>WordPressScanner.check_plugin\<close>)\<close>

record plugin_info =
  plugin_slug :: string
  is_installed :: bool
  version :: "string option"
  detected_by :: "string option"
  plugin_url :: "url option"

definition init_plugin_info :: "string \<Rightarrow> plugin_info" where
  "init_plugin_info slug =
     \<lparr>plugin_slug = slug, is_installed = False, version = None, detected_by = None,
      plugin_url = None\<rparr>"

text \<open>Line 63: the f-string interpolates the slug as it is.\<close>

definition plugin_base_url :: "string \<Rightarrow> string \<Rightarrow> string" where
  "plugin_base_url target_url slug = target_url @ ''/wp-content/plugins/'' @ slug @ ''/''"

definition readme_url :: "string \<Rightarrow> string \<Rightarrow> url" where
  "readme_url target_url slug = Urljoin (plugin_base_url target_url slug) ''readme.txt''"

definition css_url :: "string \<Rightarrow> string \<Rightarrow> url" where
  "css_url target_url slug =
     Urljoin (plugin_base_url target_url slug) (''assets/css/'' @ slug @ ''.css'')"

text \<open>
  Every result comes with the requests the call has sent, in order. Both \<open>try\<close> blocks
  catch \<open>requests.RequestException\<close> only; another exception leaves the method (\<open>Inl\<close>).
  Lines 77 to 86, the asset check, after the requests \<open>sent\<close>:
\<close>

definition asset_check ::
  "network \<Rightarrow> string \<Rightarrow> string \<Rightarrow> request list \<Rightarrow> (exn + plugin_info) \<times> request list" where
  "asset_check net target_url slug sent =
     (case send net (head_req (css_url target_url slug)) sent of
        (Reply f, sent') \<Rightarrow>
          (if status_code f = 200
           then (Inr ((init_plugin_info slug)
                   \<lparr>is_installed := True, detected_by := Some ''asset file'',
                    plugin_url := Some (css_url target_url slug)\<rparr>), sent')
           else (Inr (init_plugin_info slug), sent'))
      | (Raises (RequestException msg), sent') \<Rightarrow> (Inr (init_plugin_info slug), sent')
      | (Raises e, sent') \<Rightarrow> (Inl e, sent'))"

definition check_plugin ::
  "network \<Rightarrow> string \<Rightarrow> string \<Rightarrow> (exn + plugin_info) \<times> request list" where
  "check_plugin net target_url slug =
     (case send net (get_req (readme_url target_url slug)) [] of
        (Reply r, sent) \<Rightarrow>
          (if status_code r = 200
           then (Inr ((init_plugin_info slug)
                   \<lparr>is_installed := True, detected_by := Some ''readme.txt'',
                    plugin_url := Some (readme_url target_url slug),
                    version := re_search stable_tag_at (resp_text r)\<rparr>),
                 sent)
           else asset_check net target_url slug sent)
      | (Raises (RequestException msg), sent) \<Rightarrow> asset_check net target_url slug sent
      | (Raises e, sent) \<Rightarrow> (Inl e, sent))"

text \<open>A method that does not find the plugin: its request is answered with another
  status than 200, or raises \<open>requests.RequestException\<close>.\<close>

definition misses :: "network \<Rightarrow> request \<Rightarrow> bool" where
  "misses net req =
     (case net req of
        Reply r \<Rightarrow> status_code r \<noteq> 200
      | Raises (RequestException msg) \<Rightarrow> True
      | Raises e \<Rightarrow> False)"

text \<open>
  The pattern \<open>Stable tag:\s*([0-9.]+)\<close> under \<open>re.IGNORECASE\<close>, in words. A text starts
  with a match whose group is \<open>v\<close> when it is the tag in any letter case, then white
  space, then \<open>v\<close>, then the rest; \<open>v\<close> is a run of digits and dots that is not empty and
  that the rest does not continue.
\<close>

definition stable_tag_match :: "string \<Rightarrow> string \<Rightarrow> bool" where
  "stable_tag_match t v =
     (\<exists>tag ws rest. t = tag @ ws @ v @ rest
        \<and> map lower_ascii tag = ''stable tag:''
        \<and> list_all is_space ws
        \<and> v \<noteq> [] \<and> list_all ver_char v
        \<and> (case rest of [] \<Rightarrow> True | c # cs \<Rightarrow> \<not> ver_char c))"

text \<open>\<open>re.search\<close> finds the group \<open>v\<close> in a text: a match with the group \<open>v\<close> starts at
  some position, and no match starts before it.\<close>

definition stable_tag_found :: "string \<Rightarrow> string \<Rightarrow> bool" where
  "stable_tag_found text v =
     (\<exists>i \<le> length text. stable_tag_match (drop i text) v
        \<and> (\<forall>j < i. \<forall>w. \<not> stable_tag_match (drop j text) w))"

section \<open>Truth values\<close>

text \<open>Truth values of Python objects that come out of JSON, and of the optional strings.\<close>

fun truthy :: "json \<Rightarrow> bool" where
  "truthy JNull = False"
| "truthy (JBool b) = b"
| "truthy (JNum n) = (n \<noteq> 0)"
| "truthy (JStr s) = (s \<noteq> [])"
| "truthy (JArr xs) = (xs \<noteq> [])"
| "truthy (JObj kvs) = (kvs \<noteq> [])"

fun truthy_str :: "string option \<Rightarrow> bool" where
  "truthy_str None = False"
| "truthy_str (Some s) = (s \<noteq> [])"

section \<open>Version comparison (\<open>distutils.version.LooseVersion\<close>)\<close>

text \<open>
  scanner.py imports \<open>LooseVersion\<close> from the standard library (line 8). Its \<open>parse\<close>
  splits the string with \<open>(\d+ | [a-z]+ | \.)\<close>, drops the empty pieces and the dots, and
  turns every piece that \<open>int\<close> accepts into an integer. The pieces are therefore the
  maximal runs of digits, the maximal runs of lower-case letters and the maximal runs of
  other characters between them; only a digit run can be accepted by \<open>int\<close>, since any
  other piece contains no digit.
\<close>

datatype ckind = KDigit | KLower | KDot | KOther

definition kind :: "char \<Rightarrow> ckind" where
  "kind c = (if is_digit c then KDigit else if is_lower c then KLower
             else if c = CHR ''.'' then KDot else KOther)"

function components :: "string \<Rightarrow> string list" where
  "components [] = []"
| "components (c # cs) =
     (if kind c = KDot then components cs
      else (c # takeWhile (\<lambda>d. kind d = kind c) cs)
             # components (dropWhile (\<lambda>d. kind d = kind c) cs))"
  by pat_completeness auto
termination
  by (relation "measure length") (auto simp: length_dropWhile_le le_imp_less_Suc)

datatype component = CInt nat | CStr string

definition digit_val :: "char \<Rightarrow> nat" where
  "digit_val c = (of_char c :: nat) - 48"

definition digits_val :: "string \<Rightarrow> nat" where
  "digits_val s = foldl (\<lambda>n c. 10 * n + digit_val c) 0 s"

text \<open>
  \<open>int(obj)\<close> on a piece, \<open>None\<close> for \<open>ValueError\<close>. CPython refuses a string of more
  than \<open>sys.int_max_str_digits\<close> digits, leading zeros counted; the default of 4300 is
  taken. \<open>parse\<close> catches the \<open>ValueError\<close> and keeps such a piece as a string.
\<close>

definition int_max_str_digits :: nat where
  "int_max_str_digits = 4300"

definition py_int :: "string \<Rightarrow> nat option" where
  "py_int s =
     (if s \<noteq> [] \<and> list_all is_digit s \<and> length s \<le> int_max_str_digits
      then Some (digits_val s) else None)"

definition component_of :: "string \<Rightarrow> component" where
  "component_of s = (case py_int s of Some n \<Rightarrow> CInt n | None \<Rightarrow> CStr s)"

definition parse :: "string \<Rightarrow> component list" where
  "parse vstring = map component_of (components vstring)"

text \<open>
  \<open>LooseVersion(x)\<close>: the constructor parses a truthy \<open>x\<close> only, and \<open>re.split\<close> raises
  \<open>TypeError\<close> on anything but a string. A falsy \<open>x\<close> leaves the object without its
  \<open>version\<close> (\<open>None\<close> here).
\<close>

fun LooseVersion :: "json \<Rightarrow> exn + component list option" where
  "LooseVersion (JStr s) = Inr (if s = [] then None else Some (parse s))"
| "LooseVersion j = (if truthy j then Inl TypeError else Inr None)"

text \<open>Python's \<open><\<close> on strings: lexicographic on code points.\<close>

fun str_lt :: "string \<Rightarrow> string \<Rightarrow> bool" where
  "str_lt [] [] = False"
| "str_lt [] (b # bs) = True"
| "str_lt (a # as) [] = False"
| "str_lt (a # as) (b # bs) =
     (if a = b then str_lt as bs else (of_char a :: nat) < of_char b)"

text \<open>\<open><\<close> on two components: an integer and a string do not compare.\<close>

fun comp_lt :: "component \<Rightarrow> component \<Rightarrow> exn + bool" where
  "comp_lt (CInt a) (CInt b) = Inr (a < b)"
| "comp_lt (CStr a) (CStr b) = Inr (str_lt a b)"
| "comp_lt (CInt a) (CStr b) = Inl TypeError"
| "comp_lt (CStr a) (CInt b) = Inl TypeError"

text \<open>
  \<open>LooseVersion.__lt__\<close>: equal lists are not less; otherwise Python's list \<open><\<close>, which
  compares the first pair of unequal elements and, when one list is a prefix of the
  other, the lengths.
\<close>

fun list_lt :: "component list \<Rightarrow> component list \<Rightarrow> exn + bool" where
  "list_lt [] [] = Inr False"
| "list_lt [] (y # ys) = Inr True"
| "list_lt (x # xs) [] = Inr False"
| "list_lt (x # xs) (y # ys) = (if x = y then list_lt xs ys else comp_lt x y)"

text \<open>\<open>LooseVersion(a) < LooseVersion(b)\<close>: both constructors run first; reading a
  \<open>version\<close> that was never set raises \<open>AttributeError\<close>.\<close>

definition version_lt :: "json \<Rightarrow> json \<Rightarrow> exn + bool" where
  "version_lt a b =
     (case LooseVersion a of
        Inl e \<Rightarrow> Inl e
      | Inr va \<Rightarrow>
          (case LooseVersion b of
             Inl e \<Rightarrow> Inl e
           | Inr vb \<Rightarrow>
               (case (va, vb) of
                  (Some x, Some y) \<Rightarrow> list_lt x y
                | _ \<Rightarrow> Inl AttributeError)))"

section \<open>Vulnerability lookup (\<open>WordPressScanner.get_plugin_cves\<close>)\<close>

text \<open>\<open>d.get(k)\<close> and \<open>d.get(k, default)\<close> on a decoded JSON object: of two equal keys the
  later one counts.\<close>

definition dict_get_default :: "(string \<times> json) list \<Rightarrow> string \<Rightarrow> json \<Rightarrow> json" where
  "dict_get_default kvs k d = (case map_of (rev kvs) k of Some v \<Rightarrow> v | None \<Rightarrow> d)"

definition dict_get :: "(string \<times> json) list \<Rightarrow> string \<Rightarrow> json" where
  "dict_get kvs k = dict_get_default kvs k JNull"

record vuln_entry =
  v_title :: json
  v_cve :: json
  v_fixed_in :: json

text \<open>The \<open>error\<close> key holds \<open>"WPScan API error: " + str(e)\<close>; the model keeps the
  exception \<open>e\<close>. \<open>None\<close> is the absent key.\<close>

record report =
  r_plugin_slug :: string
  r_version :: "string option"
  vulnerabilities :: "vuln_entry list"
  is_outdated :: bool
  latest_version :: json
  source :: string
  r_error :: "exn option"

definition init_report :: "string \<Rightarrow> string option \<Rightarrow> report" where
  "init_report slug ver =
     \<lparr>r_plugin_slug = slug, r_version = ver, vulnerabilities = [], is_outdated = False,
      latest_version = JNull, source = ''N/A'', r_error = None\<rparr>"

definition registry_request :: "string \<Rightarrow> request" where
  "registry_request slug =
     get_req (Url (''https://api.wordpress.org/plugins/info/1.0/'' @ slug @ ''.json''))"

definition wpscan_request :: "string \<Rightarrow> string \<Rightarrow> request" where
  "wpscan_request slug api_token =
     \<lparr>req_meth = GET, req_url = Url (''https://wpscan.com/api/v3/plugins/'' @ slug),
      req_auth = Some (''Token token='' @ api_token)\<rparr>"

text \<open>Lines 112 and 113, and again 139 and 140: the comparison may raise.\<close>

definition compare_versions :: "string option \<Rightarrow> report \<Rightarrow> exn + report" where
  "compare_versions ver res =
     (if truthy_str ver \<and> truthy (latest_version res)
      then (case version_lt (JStr (the ver)) (latest_version res) of
              Inl e \<Rightarrow> Inl e
            | Inr b \<Rightarrow> Inr (res\<lparr>is_outdated := b\<rparr>))
      else Inr res)"

text \<open>
  A \<open>try\<close> block is modelled by the report as it stands when the block ends or raises,
  together with the exception it raised, if any; the handler is applied to the pair.
  Lines 109 to 116, what the first \<open>try\<close> does with the reply of the registry: a
  \<open>version\<close> read from the body is in the report before the comparison can raise.
\<close>

definition read_registry :: "string option \<Rightarrow> reply \<Rightarrow> report \<Rightarrow> report \<times> exn option" where
  "read_registry ver rp res =
     (case rp of
        Raises e \<Rightarrow> (res, Some e)
      | Reply r \<Rightarrow>
          (if status_code r = 200
           then (case resp_json r of
                   None \<Rightarrow> (res, Some JSONDecodeError)
                 | Some (JObj plugin_data) \<Rightarrow>
                     (let res' = res\<lparr>latest_version := dict_get plugin_data ''version''\<rparr> in
                      case compare_versions ver res' of
                        Inr res'' \<Rightarrow> (res'', None)
                      | Inl e \<Rightarrow> (res', Some e))
                 | Some j \<Rightarrow> (res, Some AttributeError))
           else (res\<lparr>is_outdated := True\<rparr>, None)))"

text \<open>Lines 106 to 116, the body of the first \<open>try\<close>, after the requests \<open>sent\<close>.\<close>

definition tier1_try ::
  "network \<Rightarrow> string \<Rightarrow> string option \<Rightarrow> report \<Rightarrow> request list
     \<Rightarrow> (report \<times> exn option) \<times> request list" where
  "tier1_try net slug ver res sent =
     (case send net (registry_request slug) sent of
        (rp, sent') \<Rightarrow> (read_registry ver rp res, sent'))"

text \<open>Lines 104 to 120, the free registry: \<open>except Exception\<close> sets \<open>is_outdated\<close> and
  drops the exception.\<close>

definition tier1 ::
  "network \<Rightarrow> string \<Rightarrow> string option \<Rightarrow> report \<Rightarrow> request list \<Rightarrow> report \<times> request list" where
  "tier1 net slug ver res0 sent =
     (case tier1_try net slug ver (res0\<lparr>source := ''WordPress.org API''\<rparr>) sent of
        ((res, None), sent') \<Rightarrow> (res, sent')
      | ((res, Some e), sent') \<Rightarrow> (res\<lparr>is_outdated := True\<rparr>, sent'))"

text \<open>
  Lines 143 to 168, one round of the loop over the vulnerabilities. An entry that is not
  an object has no \<open>get\<close>: \<open>AttributeError\<close>, which ends the loop.
\<close>

definition vuln_step :: "string option \<Rightarrow> json \<Rightarrow> vuln_entry list \<Rightarrow> exn + vuln_entry list" where
  "vuln_step ver vuln acc =
     (case vuln of
        JObj v \<Rightarrow>
          (let fixed_in_version = dict_get v ''fixed_in'' in
           if \<not> truthy fixed_in_version
           then Inr (acc @ [\<lparr>v_title = dict_get v ''title'', v_cve = dict_get v ''cve'',
                             v_fixed_in = JStr ''Not fixed''\<rparr>])
           else if truthy_str ver
           then (case version_lt (JStr (the ver)) fixed_in_version of
                   Inr False \<Rightarrow> Inr acc
                 | _ \<Rightarrow> Inr (acc @ [\<lparr>v_title = dict_get v ''title'', v_cve = dict_get v ''cve'',
                                      v_fixed_in = fixed_in_version\<rparr>]))
           else Inr acc)
      | _ \<Rightarrow> Inl AttributeError)"

text \<open>The loop: when a round raises, the entries appended so far stay in the report.\<close>

fun vuln_loop ::
  "string option \<Rightarrow> json list \<Rightarrow> vuln_entry list \<Rightarrow> vuln_entry list \<times> exn option" where
  "vuln_loop ver [] acc = (acc, None)"
| "vuln_loop ver (vuln # rest) acc =
     (case vuln_step ver vuln acc of
        Inl e \<Rightarrow> (acc, Some e)
      | Inr acc' \<Rightarrow> vuln_loop ver rest acc')"

text \<open>What \<open>for vuln in x\<close> iterates over: the elements of a list, the keys of an object,
  the characters of a string; anything else is not iterable.\<close>

fun py_iter :: "json \<Rightarrow> exn + json list" where
  "py_iter (JArr xs) = Inr xs"
| "py_iter (JObj kvs) = Inr (map JStr (rev (remdups (rev (map fst kvs)))))"
| "py_iter (JStr s) = Inr (map (\<lambda>c. JStr [c]) s)"
| "py_iter j = Inl TypeError"

text \<open>Lines 134 to 168: reading the paid answer, from \<open>data.get(plugin_slug, {})\<close> on.\<close>

definition read_paid ::
  "string \<Rightarrow> string option \<Rightarrow> json \<Rightarrow> report \<Rightarrow> report \<times> exn option" where
  "read_paid slug ver data res =
     (case data of
        JObj d \<Rightarrow>
          (case dict_get_default d slug (JObj []) of
             JObj plugin_data \<Rightarrow>
               (case (if truthy (dict_get plugin_data ''latest_version'')
                      then compare_versions ver
                             (res\<lparr>latest_version := dict_get plugin_data ''latest_version''\<rparr>)
                      else Inr res) of
                  Inl e \<Rightarrow>
                    (res\<lparr>latest_version := dict_get plugin_data ''latest_version''\<rparr>, Some e)
                | Inr res' \<Rightarrow>
                    (case py_iter (dict_get_default plugin_data ''vulnerabilities'' (JArr [])) of
                       Inl e \<Rightarrow> (res', Some e)
                     | Inr vulns \<Rightarrow>
                         (case vuln_loop ver vulns (vulnerabilities res') of
                            (vs, err) \<Rightarrow> (res'\<lparr>vulnerabilities := vs\<rparr>, err))))
           | j \<Rightarrow> (res, Some AttributeError))
      | j \<Rightarrow> (res, Some AttributeError))"

text \<open>Lines 124 to 126: the gate of the paid lookup.\<close>

definition is_unknown :: "string option \<Rightarrow> report \<Rightarrow> bool" where
  "is_unknown ver res = (\<not> truthy (latest_version res) \<and> truthy_str ver)"

definition tier2_runs :: "string option \<Rightarrow> string option \<Rightarrow> report \<Rightarrow> bool" where
  "tier2_runs api_token ver res = ((is_outdated res \<or> is_unknown ver res) \<and> truthy_str api_token)"

text \<open>Lines 132 to 168, what the second \<open>try\<close> does with the reply of the paid
  database.\<close>

definition read_wpscan ::
  "string \<Rightarrow> string option \<Rightarrow> reply \<Rightarrow> report \<Rightarrow> report \<times> exn option" where
  "read_wpscan slug ver rp res =
     (case rp of
        Raises e \<Rightarrow> (res, Some e)
      | Reply r \<Rightarrow>
          (if status_code r = 200
           then (case resp_json r of
                   None \<Rightarrow> (res, Some JSONDecodeError)
                 | Some data \<Rightarrow> read_paid slug ver data res)
           else (res, None)))"

text \<open>Lines 131 to 168, the body of the second \<open>try\<close>, after the requests \<open>sent\<close>.\<close>

definition tier2_try ::
  "network \<Rightarrow> string \<Rightarrow> string option \<Rightarrow> string \<Rightarrow> report \<Rightarrow> request list
     \<Rightarrow> (report \<times> exn option) \<times> request list" where
  "tier2_try net slug ver api_token res sent =
     (case send net (wpscan_request slug api_token) sent of
        (rp, sent') \<Rightarrow> (read_wpscan slug ver rp res, sent'))"

text \<open>Lines 127 to 170, the paid database, entered when the gate is open:
  \<open>except Exception as e\<close> stores the exception.\<close>

definition tier2 ::
  "network \<Rightarrow> string \<Rightarrow> string option \<Rightarrow> string \<Rightarrow> report \<Rightarrow> request list
     \<Rightarrow> report \<times> request list" where
  "tier2 net slug ver api_token res0 sent =
     (case tier2_try net slug ver api_token (res0\<lparr>source := ''WPScan API (Outdated)''\<rparr>) sent of
        ((res, None), sent') \<Rightarrow> (res, sent')
      | ((res, Some e), sent') \<Rightarrow> (res\<lparr>r_error := Some e\<rparr>, sent'))"

text \<open>Lines 173 and 174.\<close>

definition final_label :: "string option \<Rightarrow> report \<Rightarrow> report" where
  "final_label api_token res =
     (if \<not> is_outdated res \<and> truthy_str api_token
      then res\<lparr>source := ''WordPress.org API (Up to date)''\<rparr> else res)"

text \<open>
  The method, with the value of \<open>WPSCAN_API_TOKEN\<close> in the environment as \<open>api_token\<close>.
  It returns the report and the requests it has sent.
\<close>

definition get_plugin_cves ::
  "network \<Rightarrow> string option \<Rightarrow> string \<Rightarrow> string option \<Rightarrow> report \<times> request list" where
  "get_plugin_cves net api_token slug ver =
     (case tier1 net slug ver (init_report slug ver) [] of
        (res1, sent1) \<Rightarrow>
          (if tier2_runs api_token ver res1
           then (case tier2 net slug ver (the api_token) res1 sent1 of
                   (res2, sent2) \<Rightarrow> (final_label api_token res2, sent2))
           else (final_label api_token res1, sent1)))"

section \<open>Observations used in the statements\<close>

text \<open>The report as the first tier leaves it, and the exception its \<open>try\<close> block
  raised.\<close>

definition after_tier1 :: "network \<Rightarrow> string \<Rightarrow> string option \<Rightarrow> report" where
  "after_tier1 net slug ver = fst (tier1 net slug ver (init_report slug ver) [])"



text \<open>The failure of the free registry: its request raises, or is answered with another
  status than 200.\<close>

definition registry_fails :: "network \<Rightarrow> string \<Rightarrow> bool" where
  "registry_fails net slug =
     (case net (registry_request slug) of Raises e \<Rightarrow> True | Reply r \<Rightarrow> status_code r \<noteq> 200)"

text \<open>The latest version the paid database gives for the slug; \<open>JNull\<close> when its answer
  has none.\<close>

definition paid_latest :: "network \<Rightarrow> string \<Rightarrow> string \<Rightarrow> json" where
  "paid_latest net slug api_token =
     (case net (wpscan_request slug api_token) of
        Raises e \<Rightarrow> JNull
      | Reply r \<Rightarrow>
          (if status_code r = 200
           then (case resp_json r of
                   Some (JObj d) \<Rightarrow>
                     (case dict_get_default d slug (JObj []) of
                        JObj plugin_data \<Rightarrow> dict_get plugin_data ''latest_version''
                      | _ \<Rightarrow> JNull)
                 | _ \<Rightarrow> JNull)
           else JNull))"

text \<open>A vulnerability entry that is a JSON object.\<close>

fun is_obj :: "json \<Rightarrow> bool" where
  "is_obj (JObj kvs) = True"
| "is_obj j = False"

text \<open>The entries the loop of line 143 reaches when it runs over \<open>x\<close>: it ends at an
  entry that is not an object, and does not start when \<open>x\<close> is not iterable.\<close>

definition reached :: "json \<Rightarrow> json list" where
  "reached x = (case py_iter x of Inl e \<Rightarrow> [] | Inr entries \<Rightarrow> takeWhile is_obj entries)"

text \<open>
  The finding the loop keeps for one entry, in the words of claim C5 as the code has it: an entry
  without a fixed-in version is reported as \<open>Not fixed\<close>; an entry with one is reported
  when the installed version is known and is below it, or does not compare with it; any
  other entry is left out.
\<close>

definition finding :: "string option \<Rightarrow> json \<Rightarrow> vuln_entry option" where
  "finding ver vuln =
     (case vuln of
        JObj v \<Rightarrow>
          (if \<not> truthy (dict_get v ''fixed_in'')
           then Some \<lparr>v_title = dict_get v ''title'', v_cve = dict_get v ''cve'',
                      v_fixed_in = JStr ''Not fixed''\<rparr>
           else if truthy_str ver
                   \<and> version_lt (JStr (the ver)) (dict_get v ''fixed_in'') \<noteq> Inr False
           then Some \<lparr>v_title = dict_get v ''title'', v_cve = dict_get v ''cve'',
                      v_fixed_in = dict_get v ''fixed_in''\<rparr>
           else None)
      | _ \<Rightarrow> None)"

section \<open>The candidate list (\<open>WordPressScanner.load_common_plugins\<close>)\<close>

text \<open>The file \<open>plugin_list.txt\<close>: absent, failing to open or read, or its lines.\<close>

datatype file_state = Missing | Unreadable | Lines "string list"

definition default_list :: "string list" where
  "default_list = [''akismet'', ''contact-form-7'', ''wordpress-seo'', ''jetpack'',
                   ''wordfence'', ''elementor'', ''woocommerce'']"

text \<open>\<open>str.strip()\<close>.\<close>

definition strip :: "string \<Rightarrow> string" where
  "strip s = rev (dropWhile is_space (rev (dropWhile is_space s)))"

text \<open>\<open>xs[:n]\<close> for an integer \<open>n\<close>, which \<open>scan_level\<close> is taken to be: a negative \<open>n\<close>
  counts from the end.\<close>

definition slice_to :: "int \<Rightarrow> 'a list \<Rightarrow> 'a list" where
  "slice_to n xs = (if 0 \<le> n then take (nat n) xs else take (length xs - nat (- n)) xs)"

definition load_common_plugins :: "file_state \<Rightarrow> int \<Rightarrow> string list" where
  "load_common_plugins file scan_level =
     (case file of
        Missing \<Rightarrow> default_list
      | Unreadable \<Rightarrow> default_list
      | Lines ls \<Rightarrow>
          (let plugins = map strip (filter (\<lambda>line. strip line \<noteq> []) ls) in
           if scan_level = - 1 then plugins else slice_to scan_level plugins))"

section \<open>Plugin enumeration (\<open>WordPressScanner.enumerate_plugins\<close>)\<close>

text \<open>
  \<open>/wp-content/plugins/([^/'"]+)\<close> at a position (line 224): the group is the maximal
  run of the class after the literal, and must not be empty.
\<close>

definition plugins_prefix :: string where
  "plugins_prefix = ''/wp-content/plugins/''"

definition plugin_slug_at :: "string \<Rightarrow> string option" where
  "plugin_slug_at s =
     (case match_lit cs_eq plugins_prefix s of
        None \<Rightarrow> None
      | Some r \<Rightarrow> (let g = takeWhile slug_char r in if g \<noteq> [] then Some g else None))"

text \<open>\<open>re.findall\<close>: the matches from left to right, each search starting where the
  match before it ended.\<close>

function findall_slugs :: "string \<Rightarrow> string list" where
  "findall_slugs [] = []"
| "findall_slugs (c # cs) =
     (case plugin_slug_at (c # cs) of
        Some g \<Rightarrow> g # findall_slugs (drop (length plugins_prefix + length g) (c # cs))
      | None \<Rightarrow> findall_slugs cs)"
  by pat_completeness auto
termination
  by (relation "measure length") (auto simp: plugins_prefix_def)

text \<open>
  \<open>set(re.findall(...))\<close> is iterated in an order Python does not specify; the model
  takes the order of the last occurrences.
\<close>

definition slugs_from_html :: "string \<Rightarrow> string list" where
  "slugs_from_html html = remdups (findall_slugs html)"

record enum_result =
  plugins :: "plugin_info list"
  total_found :: nat
  detection_methods :: "string list"

text \<open>
  The state of the scraping stage: the plugins appended so far, \<open>found_slugs\<close>, and the
  slugs handed to \<open>check_plugin\<close> so far. Lines 229 to 234; an exception of \<open>check_plugin\<close>
  is caught by the bare \<open>except\<close> of line 235 and ends the loop.
\<close>

fun html_loop ::
  "network \<Rightarrow> string \<Rightarrow> string list \<Rightarrow> plugin_info list \<times> string set \<times> string list
     \<Rightarrow> plugin_info list \<times> string set \<times> string list" where
  "html_loop net target_url [] st = st"
| "html_loop net target_url (slug # rest) (ps, found_slugs, probed) =
     (if slug \<notin> found_slugs
      then (case fst (check_plugin net target_url slug) of
              Inl e \<Rightarrow> (ps, found_slugs, probed @ [slug])
            | Inr info \<Rightarrow>
                (if is_installed info
                 then html_loop net target_url rest
                        (ps @ [info], insert slug found_slugs, probed @ [slug])
                 else html_loop net target_url rest (ps, found_slugs, probed @ [slug])))
      else html_loop net target_url rest (ps, found_slugs, probed))"

text \<open>Lines 221 to 236. The last component is what the stage adds to
  \<open>detection_methods\<close>.\<close>

definition html_stage ::
  "network \<Rightarrow> string \<Rightarrow> (plugin_info list \<times> string set \<times> string list) \<times> string list" where
  "html_stage net target_url =
     (case net (get_req (Url target_url)) of
        Raises e \<Rightarrow> (([], {}, []), [])
      | Reply r \<Rightarrow>
          (if slugs_from_html (resp_text r) \<noteq> []
           then (html_loop net target_url (slugs_from_html (resp_text r)) ([], {}, []),
                 [''HTML parsing''])
           else (([], {}, []), [])))"

text \<open>Line 243.\<close>

definition plugins_to_check :: "string list \<Rightarrow> string set \<Rightarrow> string list" where
  "plugins_to_check common_plugins found_slugs =
     filter (\<lambda>slug. slug \<notin> found_slugs) common_plugins"

text \<open>Lines 247 to 251: the results are read in the order of submission, and
  \<open>future.result()\<close> raises what its probe raised.\<close>

fun collect :: "(exn + plugin_info) list \<Rightarrow> plugin_info list \<Rightarrow> exn + plugin_info list" where
  "collect [] ps = Inr ps"
| "collect (Inl e # rest) ps = Inl e"
| "collect (Inr info # rest) ps = collect rest (if is_installed info then ps @ [info] else ps)"

text \<open>
  The method, with the content of the candidate file as \<open>file\<close>. It returns its result
  and the slugs it has handed to \<open>check_plugin\<close>: those of the scraping stage in order,
  then those of the pool in the order of submission.
\<close>

definition enumerate_plugins ::
  "network \<Rightarrow> file_state \<Rightarrow> string \<Rightarrow> int \<Rightarrow> (exn + enum_result) \<times> string list" where
  "enumerate_plugins net file target_url scan_level =
     (case html_stage net target_url of
        ((ps, found_slugs, probed), methods) \<Rightarrow>
          (let to_check = plugins_to_check (load_common_plugins file scan_level) found_slugs;
               results = map (\<lambda>slug. fst (check_plugin net target_url slug)) to_check
           in (case collect results ps of
                 Inl e \<Rightarrow> Inl e
               | Inr ps' \<Rightarrow>
                   Inr \<lparr>plugins = ps', total_found = length ps',
                        detection_methods = methods @ [''common plugin checking (concurrent)'']\<rparr>,
               probed @ to_check)))"

text \<open>The plugins and \<open>found_slugs\<close> as the scraping stage leaves them.\<close>

definition html_plugins :: "network \<Rightarrow> string \<Rightarrow> plugin_info list" where
  "html_plugins net target_url = fst (fst (html_stage net target_url))"


definition html_found :: "network \<Rightarrow> string \<Rightarrow> string set" where
  "html_found net target_url = fst (snd (fst (html_stage net target_url)))"

text \<open>The invariant of the scraping loop, with the slugs still to visit: the plugins
  appended so far are installed and have pairwise different slugs, these slugs are
  \<open>found_slugs\<close>, and every slug was handed to \<open>check_plugin\<close> at most once and is not
  visited again.\<close>

definition html_inv :: "string list \<Rightarrow> plugin_info list \<times> string set \<times> string list \<Rightarrow> bool" where
  "html_inv rest st =
     (case st of (ps, found_slugs, probed) \<Rightarrow>
        (\<forall>p \<in> set ps. is_installed p) \<and> distinct (map plugin_slug ps)
        \<and> set (map plugin_slug ps) = found_slugs \<and> found_slugs \<subseteq> set probed
        \<and> distinct probed \<and> set probed \<inter> set rest = {} \<and> distinct rest)"

section \<open>Example targets\<close>

text \<open>A network given by a table; a request outside the table fails to connect.\<close>

definition table_net :: "(request \<times> reply) list \<Rightarrow> network" where
  "table_net tbl req =
     (case map_of tbl req of
        Some r \<Rightarrow> r
      | None \<Rightarrow> Raises (RequestException ''connection refused''))"

definition page :: "nat \<Rightarrow> string \<Rightarrow> reply" where
  "page code body = Reply \<lparr>status_code = code, resp_url = ''http://wp.test/'',
                           resp_text = body, resp_json = None\<rparr>"

definition json_page :: "nat \<Rightarrow> json \<Rightarrow> reply" where
  "json_page code doc = Reply \<lparr>status_code = code, resp_url = [], resp_text = [],
                              resp_json = Some doc\<rparr>"

definition generator_page :: string where
  "generator_page =
     ''<html><head><meta name='' @ [dquote] @ ''generator'' @ [dquote] @ '' content='' @ [dquote]
       @ ''WordPress 6.2'' @ [dquote] @ ''></head></html>''"

definition generator_site :: network where
  "generator_site = table_net [(get_req (Url ''http://wp.test''), page 200 generator_page)]"

definition dead_site :: network where
  "dead_site = table_net []"

definition cf7_readme :: string where
  "cf7_readme = ''=== Contact Form 7 ==='' @ [CHR 0x0A] @ ''Stable tag: 5.4.2'' @ [CHR 0x0A]"

definition cf7_site :: network where
  "cf7_site = table_net
     [(get_req (readme_url ''http://wp.test'' ''contact-form-7''), page 200 cf7_readme)]"

definition asset_site :: network where
  "asset_site = table_net
     [(get_req (readme_url ''http://wp.test'' ''jetpack''), page 404 []),
      (head_req (css_url ''http://wp.test'' ''jetpack''), page 200 [])]"

definition padded_registry :: network where
  "padded_registry = table_net
     [(registry_request ''akismet'', json_page 200 (JObj [(''version'', JStr ''1.9.0'')]))]"

definition newer_registry :: network where
  "newer_registry = table_net
     [(registry_request ''akismet'', json_page 200 (JObj [(''version'', JStr ''1.10'')]))]"

definition premium_site :: "json \<Rightarrow> network" where
  "premium_site entry = table_net
     [(registry_request ''slider'', page 404 []),
      (wpscan_request ''slider'' ''k'', json_page 200 (JObj [(''slider'', entry)]))]"

definition two_vulns :: json where
  "two_vulns = JObj [(''vulnerabilities'',
     JArr [JObj [(''title'', JStr ''XSS''), (''fixed_in'', JStr ''2.0'')],
           JObj [(''title'', JStr ''SQLi'')]])]"

definition current_with_vuln :: json where
  "current_with_vuln = JObj [(''latest_version'', JStr ''1.0''),
     (''vulnerabilities'', JArr [JObj [(''title'', JStr ''SQLi'')]])]"

definition cf7_registry :: network where
  "cf7_registry = table_net
     [(registry_request ''contact-form-7'',
       json_page 200 (JObj [(''version'', JStr ''5.5.0'')]))]"

definition blog_page :: string where
  "blog_page = ''<link href='' @ [squote] @ ''/wp-content/plugins/akismet/a.css'' @ [squote]
                 @ ''><script src='' @ [dquote] @ ''/wp-content/plugins/akismet/a.js'' @ [dquote] @ ''>''"

definition blog_site :: network where
  "blog_site = table_net
     [(get_req (Url ''http://wp.test''), page 200 blog_page),
      (get_req (readme_url ''http://wp.test'' ''akismet''), page 200 ''Stable tag: 5.3''),
      (get_req (readme_url ''http://wp.test'' ''jetpack''), page 403 []),
      (head_req (css_url ''http://wp.test'' ''jetpack''), page 200 [])]"


definition tabbed_readme :: string where
  "tabbed_readme = ''Tested up to: 6.4'' @ [CHR 0x0A] @ ''STABLE TAG:'' @ [CHR 0x09, CHR 0x20]
                   @ ''5.3.1-beta'' @ [CHR 0x0A]"

definition tabbed_site :: network where
  "tabbed_site = table_net
     [(get_req (readme_url ''http://wp.test'' ''akismet''), page 200 tabbed_readme)]"

definition untagged_readme :: string where
  "untagged_readme = ''Stable tag: trunk''"

definition untagged_site :: network where
  "untagged_site = table_net
     [(get_req (readme_url ''http://wp.test'' ''akismet''), page 200 untagged_readme)]"

definition beta_latest :: json where
  "beta_latest = JObj [(''latest_version'', JStr ''2.0-beta''),
     (''vulnerabilities'', JArr [JObj [(''title'', JStr ''SQLi'')]])]"

definition beta_fix :: json where
  "beta_fix = JObj [(''vulnerabilities'',
     JArr [JObj [(''title'', JStr ''XSS''), (''fixed_in'', JStr ''2.0-beta'')]])]"

definition newer_paid :: json where
  "newer_paid = JObj [(''latest_version'', JStr ''1.10'')]"

definition null_entry :: json where
  "null_entry = JObj [(''vulnerabilities'', JArr [JNull, JObj [(''title'', JStr ''SQLi'')]])]"

section \<open>Properties of the detector\<close>

lemma confidence_check_paths:
  "confidence (check_paths html i) = confidence i + (if paths_signal html then 30 else 0)"
  by (simp add: check_paths_def)

lemma confidence_check_generator:
  "confidence (check_generator html i) =
     confidence i + (if re_search generator_at html \<noteq> None then 40 else 0)"
  by (simp add: check_generator_def split: option.splits)

lemma confidence_check_api:
  "confidence (check_api net t i) = confidence i + (if api_signal net t then 30 else 0)"
  by (simp add: check_api_def)

lemma error_checks:
  "wp_error (check_api net t (check_generator html (check_paths html i))) = wp_error i"
  by (simp add: check_api_def check_generator_def check_paths_def split: option.splits)

lemma flag_checks:
  "is_wordpress_flag (check_api net t (check_generator html (check_paths html i)))
     = is_wordpress_flag i"
  by (simp add: check_api_def check_generator_def check_paths_def split: option.splits)

lemma decide_flag:
  "\<not> is_wordpress_flag i \<Longrightarrow> is_wordpress_flag (decide i) = (confidence i \<ge> 30)"
  by (simp add: decide_def)

lemma decide_keeps: "confidence (decide i) = confidence i \<and> wp_error (decide i) = wp_error i"
  by (simp add: decide_def)

text \<open>
  Claim C1. Whenever the detector returns, the returned flag equals \<open>confidence \<ge> 30\<close>.
  When the root fetch raised, the confidence is 0, the flag is false and the error is set;
  when it answered, the confidence is the sum of the weights of the matched signals
  (30 for the paths, 40 for the generator tag, 30 for the REST probe) and no error is set.
\<close>

theorem is_wordpress_threshold:
  assumes "is_wordpress net target_url = Inr (ind, target_url')"
  shows "is_wordpress_flag ind = (confidence ind \<ge> 30) \<and>
         (case net (get_req (Url target_url)) of
            Raises e \<Rightarrow> confidence ind = 0 \<and> \<not> is_wordpress_flag ind \<and> wp_error ind \<noteq> None
          | Reply r \<Rightarrow>
              confidence ind = signal_sum (paths_signal (resp_text r))
                                 (re_search generator_at (resp_text r) \<noteq> None)
                                 (api_signal net (rstrip_slash (resp_url r)))
              \<and> wp_error ind = None)"
proof (cases "net (get_req (Url target_url))")
  case (Raises e)
  with assms show ?thesis
    by (cases e) (auto simp: is_wordpress_def init_indicators_def)
next
  case (Reply r)
  with assms have ind: "ind = decide (check_api net (rstrip_slash (resp_url r))
        (check_generator (resp_text r) (check_paths (resp_text r) (init_indicators target_url))))"
    by (auto simp: is_wordpress_def Let_def)
  have "is_wordpress_flag ind = (confidence ind \<ge> 30)"
    unfolding ind by (simp add: decide_keeps decide_flag flag_checks init_indicators_def)
  moreover have "confidence ind = signal_sum (paths_signal (resp_text r))
                                 (re_search generator_at (resp_text r) \<noteq> None)
                                 (api_signal net (rstrip_slash (resp_url r)))"
    unfolding ind
    by (simp add: decide_keeps confidence_check_api confidence_check_generator
          confidence_check_paths signal_sum_def init_indicators_def)
  moreover have "wp_error ind = None"
    unfolding ind by (simp add: decide_keeps error_checks init_indicators_def)
  ultimately show ?thesis using Reply by simp
qed

text \<open>The theorem at a site that shows the generator tag only, and at a site that does
  not answer.\<close>

theorem is_wordpress_threshold_witness:
  "is_wordpress generator_site ''http://wp.test'' =
     Inr (\<lparr>is_wordpress_flag = True, confidence = 40, wp_detected_by = [''meta generator tag''],
           wp_version = Some ''6.2'', wp_url = ''http://wp.test'', wp_error = None\<rparr>,
          ''http://wp.test'')
   \<and> is_wordpress dead_site ''http://wp.test'' =
     Inr (\<lparr>is_wordpress_flag = False, confidence = 0, wp_detected_by = [],
           wp_version = None, wp_url = ''http://wp.test'',
           wp_error = Some ''connection refused''\<rparr>, ''http://wp.test'')
   \<and> (True = ((40 :: int) \<ge> 30)) \<and> (False = ((0 :: int) \<ge> 30))"
proof -
  have a: "is_wordpress generator_site ''http://wp.test'' =
     Inr (\<lparr>is_wordpress_flag = True, confidence = 40, wp_detected_by = [''meta generator tag''],
           wp_version = Some ''6.2'', wp_url = ''http://wp.test'', wp_error = None\<rparr>,
          ''http://wp.test'')"
    by code_simp
  have b: "is_wordpress dead_site ''http://wp.test'' =
     Inr (\<lparr>is_wordpress_flag = False, confidence = 0, wp_detected_by = [],
           wp_version = None, wp_url = ''http://wp.test'',
           wp_error = Some ''connection refused''\<rparr>, ''http://wp.test'')"
    by code_simp
  from is_wordpress_threshold [OF a] is_wordpress_threshold [OF b] a b show ?thesis
    by simp
qed

section \<open>Properties of the prober\<close>

lemma asset_check_hit:
  "net (head_req (css_url t slug)) = Reply f \<Longrightarrow> status_code f = 200 \<Longrightarrow>
   asset_check net t slug sent =
     (Inr \<lparr>plugin_slug = slug, is_installed = True, version = None,
           detected_by = Some ''asset file'', plugin_url = Some (css_url t slug)\<rparr>,
      sent @ [head_req (css_url t slug)])"
  by (simp add: asset_check_def send_def init_plugin_info_def)

lemma asset_check_miss:
  "misses net (head_req (css_url t slug)) \<Longrightarrow>
   asset_check net t slug sent = (Inr (init_plugin_info slug), sent @ [head_req (css_url t slug)])"
  by (auto simp: asset_check_def send_def misses_def split: reply.splits exn.splits)

lemma check_plugin_readme_miss:
  "misses net (get_req (readme_url t slug)) \<Longrightarrow>
   check_plugin net t slug = asset_check net t slug [get_req (readme_url t slug)]"
  by (auto simp: check_plugin_def send_def misses_def split: reply.splits exn.splits)

lemma check_plugin_readme_hit:
  "net (get_req (readme_url t slug)) = Reply r \<Longrightarrow> status_code r = 200 \<Longrightarrow>
   check_plugin net t slug =
     (Inr \<lparr>plugin_slug = slug, is_installed = True,
           version = re_search stable_tag_at (resp_text r),
           detected_by = Some ''readme.txt'', plugin_url = Some (readme_url t slug)\<rparr>,
      [get_req (readme_url t slug)])"
  by (simp add: check_plugin_def send_def init_plugin_info_def)

text \<open>A literal matches at the start of a text exactly when the text splits into a piece
  that agrees with the literal character by character, and the rest.\<close>

lemma match_lit_iff:
  "match_lit eq p s = Some r \<longleftrightarrow> (\<exists>m. s = m @ r \<and> list_all2 eq p m)"
proof (induction eq p s rule: match_lit.induct)
  case (1 eq s)
  show ?case by auto
next
  case (2 eq p ps)
  show ?case by (auto simp: list_all2_Cons1)
next
  case (3 eq p ps c cs)
  show ?case
  proof (cases "eq p c")
    case True
    with 3 show ?thesis
      by (auto simp: list_all2_Cons1 Cons_eq_append_conv)
  next
    case False
    then show ?thesis
      by (auto simp: list_all2_Cons1 Cons_eq_append_conv)
  qed
qed

lemma list_all2_ci_eq: "list_all2 ci_eq p m \<longleftrightarrow> map lower_ascii p = map lower_ascii m"
proof (induction p arbitrary: m)
  case Nil
  show ?case by auto
next
  case (Cons a p)
  then show ?case by (cases m) (auto simp: ci_eq_def)
qed

lemma lower_stable_tag: "map lower_ascii ''Stable tag:'' = ''stable tag:''"
  by code_simp

lemma match_tag_iff:
  "match_lit ci_eq ''Stable tag:'' s = Some r
     \<longleftrightarrow> (\<exists>tag. s = tag @ r \<and> map lower_ascii tag = ''stable tag:'')"
  unfolding match_lit_iff list_all2_ci_eq lower_stable_tag by metis

lemma ver_char_not_space: "ver_char c \<Longrightarrow> \<not> is_space c"
  by (auto simp: ver_char_def is_space_def is_digit_def Let_def)

lemma takeWhile_run:
  assumes "list_all P v" and "case rest of [] \<Rightarrow> True | c # cs \<Rightarrow> \<not> P c"
  shows "takeWhile P (v @ rest) = v"
  using assms by (cases rest) (auto simp: list_all_iff takeWhile_append2)

lemma dropWhile_spaces:
  assumes "list_all is_space ws" and "v \<noteq> []" and "list_all ver_char v"
  shows "dropWhile is_space (ws @ v @ rest) = v @ rest"
proof -
  from assms(2,3) have "\<not> is_space (hd v)"
    by (cases v) (auto simp: ver_char_not_space)
  with assms(2) have "dropWhile is_space (v @ rest) = v @ rest"
    by (cases v) auto
  with assms(1) show ?thesis
    by (simp add: list_all_iff dropWhile_append2)
qed

text \<open>The matcher of the model finds at a position what the pattern says.\<close>

lemma stable_tag_at_iff: "stable_tag_at t = Some v \<longleftrightarrow> stable_tag_match t v"
proof
  assume "stable_tag_at t = Some v"
  then obtain r where r: "match_lit ci_eq ''Stable tag:'' t = Some r"
    and v: "v = takeWhile ver_char (dropWhile is_space r)" and ne: "v \<noteq> []"
    by (auto simp: stable_tag_at_def Let_def split: option.splits if_splits)
  from r obtain tag where tag: "t = tag @ r" "map lower_ascii tag = ''stable tag:''"
    unfolding match_tag_iff by (elim exE conjE)
  let ?ws = "takeWhile is_space r"
  let ?rest = "dropWhile ver_char (dropWhile is_space r)"
  have "?ws @ v @ ?rest = r"
    by (simp add: v)
  then have split: "t = tag @ ?ws @ v @ ?rest"
    by (simp only: tag(1))
  have ws: "list_all is_space ?ws"
    by (auto simp: list_all_iff dest: set_takeWhileD)
  have run: "list_all ver_char v"
    by (auto simp: v list_all_iff dest: set_takeWhileD)
  have stop: "case ?rest of [] \<Rightarrow> True | c # cs \<Rightarrow> \<not> ver_char c"
    by (simp add: dropWhile_eq_Cons_conv split: list.splits)
  from split tag(2) ws ne run stop
  have "t = tag @ ?ws @ v @ ?rest
        \<and> map lower_ascii tag = ''stable tag:''
        \<and> list_all is_space ?ws
        \<and> v \<noteq> [] \<and> list_all ver_char v
        \<and> (case ?rest of [] \<Rightarrow> True | c # cs \<Rightarrow> \<not> ver_char c)"
    by (intro conjI)
  then show "stable_tag_match t v"
    unfolding stable_tag_match_def by (intro exI)
next
  assume "stable_tag_match t v"
  then obtain tag ws rest where t: "t = tag @ ws @ v @ rest"
    and tag: "map lower_ascii tag = ''stable tag:''" and ws: "list_all is_space ws"
    and ne: "v \<noteq> []" and run: "list_all ver_char v"
    and stop: "case rest of [] \<Rightarrow> True | c # cs \<Rightarrow> \<not> ver_char c"
    unfolding stable_tag_match_def by (elim exE conjE)
  from t tag have "\<exists>m. t = m @ ws @ v @ rest \<and> map lower_ascii m = ''stable tag:''"
    by (intro exI conjI)
  then have "match_lit ci_eq ''Stable tag:'' t = Some (ws @ v @ rest)"
    by (simp only: match_tag_iff)
  moreover from ws ne run have "dropWhile is_space (ws @ v @ rest) = v @ rest"
    by (rule dropWhile_spaces)
  moreover from run stop have "takeWhile ver_char (v @ rest) = v"
    by (rule takeWhile_run)
  ultimately show "stable_tag_at t = Some v"
    using ne by (simp add: stable_tag_at_def)
qed

text \<open>\<open>re_search\<close> returns what the matcher finds at the first position where it finds
  something.\<close>

lemma re_search_iff:
  "re_search m s = Some v
     \<longleftrightarrow> (\<exists>i \<le> length s. m (drop i s) = Some v \<and> (\<forall>j < i. m (drop j s) = None))"
proof (induction s)
  case Nil
  show ?case by simp
next
  case (Cons c cs)
  show ?case
  proof (cases "m (c # cs)")
    case (Some g)
    have "(\<exists>i \<le> length (c # cs). m (drop i (c # cs)) = Some v
             \<and> (\<forall>j < i. m (drop j (c # cs)) = None)) \<longleftrightarrow> g = v"
    proof
      assume "\<exists>i \<le> length (c # cs). m (drop i (c # cs)) = Some v
                \<and> (\<forall>j < i. m (drop j (c # cs)) = None)"
      then obtain i where i: "m (drop i (c # cs)) = Some v"
        "\<forall>j < i. m (drop j (c # cs)) = None"
        by blast
      have "i = 0"
      proof (rule ccontr)
        assume "i \<noteq> 0"
        with i(2) have "m (drop 0 (c # cs)) = None" by blast
        with Some show False by simp
      qed
      with i(1) Some show "g = v" by simp
    next
      assume "g = v"
      with Some have "m (drop 0 (c # cs)) = Some v \<and> (\<forall>j < 0. m (drop j (c # cs)) = None)"
        by simp
      then show "\<exists>i \<le> length (c # cs). m (drop i (c # cs)) = Some v
                   \<and> (\<forall>j < i. m (drop j (c # cs)) = None)"
        by blast
    qed
    with Some show ?thesis by simp
  next
    case None
    have "(\<exists>i \<le> length (c # cs). m (drop i (c # cs)) = Some v
             \<and> (\<forall>j < i. m (drop j (c # cs)) = None))
          \<longleftrightarrow> (\<exists>i \<le> length cs. m (drop i cs) = Some v \<and> (\<forall>j < i. m (drop j cs) = None))"
    proof
      assume "\<exists>i \<le> length (c # cs). m (drop i (c # cs)) = Some v
                \<and> (\<forall>j < i. m (drop j (c # cs)) = None)"
      then obtain i where i: "i \<le> length (c # cs)" "m (drop i (c # cs)) = Some v"
        "\<forall>j < i. m (drop j (c # cs)) = None"
        by blast
      from i(2) None obtain k where k: "i = Suc k" by (cases i) auto
      have "\<forall>j < k. m (drop j cs) = None"
      proof (intro allI impI)
        fix j assume "j < k"
        then have "Suc j < i" by (simp add: k)
        with i(3) have "m (drop (Suc j) (c # cs)) = None" by blast
        then show "m (drop j cs) = None" by simp
      qed
      with i(1,2) k show "\<exists>i \<le> length cs. m (drop i cs) = Some v
                            \<and> (\<forall>j < i. m (drop j cs) = None)"
        by auto
    next
      assume "\<exists>i \<le> length cs. m (drop i cs) = Some v \<and> (\<forall>j < i. m (drop j cs) = None)"
      then obtain k where k: "k \<le> length cs" "m (drop k cs) = Some v"
        "\<forall>j < k. m (drop j cs) = None"
        by blast
      have "\<forall>j < Suc k. m (drop j (c # cs)) = None"
      proof (intro allI impI)
        fix j assume "j < Suc k"
        then show "m (drop j (c # cs)) = None"
          using None k(3) by (cases j) auto
      qed
      with k(1,2) have "Suc k \<le> length (c # cs) \<and> m (drop (Suc k) (c # cs)) = Some v
                         \<and> (\<forall>j < Suc k. m (drop j (c # cs)) = None)"
        by simp
      then show "\<exists>i \<le> length (c # cs). m (drop i (c # cs)) = Some v
                   \<and> (\<forall>j < i. m (drop j (c # cs)) = None)"
        by blast
    qed
    with None Cons.IH show ?thesis by simp
  qed
qed

lemma stable_tag_search_iff:
  "re_search stable_tag_at text = Some v \<longleftrightarrow> stable_tag_found text v"
proof -
  have none: "stable_tag_at t = None \<longleftrightarrow> (\<forall>w. \<not> stable_tag_match t w)" for t
    using stable_tag_at_iff [of t] by (cases "stable_tag_at t") auto
  show ?thesis
    unfolding re_search_iff stable_tag_found_def
    by (simp add: none stable_tag_at_iff)
qed

text \<open>
  Claim C8. When the GET of \<open>readme.txt\<close> is answered with 200, the plugin is reported
  installed, detected by \<open>readme.txt\<close>, and the GET is the only request sent. Its version is
  what the search for \<open>Stable tag:\s*([0-9.]+)\<close> returns, and for every text that search
  returns a version exactly when the text holds, in any letter case, the tag followed by
  white space or none and by a run of digits and dots that is not empty: the version is
  the whole run of the first such place, and there is no version when there is no such
  place. When the GET misses (another status, or a network failure), the HEAD of the
  asset file decides: 200 reports the plugin installed, detected by \<open>asset file\<close>, without
  a version; a miss reports it not installed. No network failure leaves the method.
\<close>

theorem check_plugin_order:
  "(\<forall>r. net (get_req (readme_url t slug)) = Reply r \<and> status_code r = 200 \<longrightarrow>
      check_plugin net t slug =
        (Inr \<lparr>plugin_slug = slug, is_installed = True,
              version = re_search stable_tag_at (resp_text r),
              detected_by = Some ''readme.txt'', plugin_url = Some (readme_url t slug)\<rparr>,
         [get_req (readme_url t slug)]))
   \<and> (\<forall>text v. re_search stable_tag_at text = Some v \<longleftrightarrow> stable_tag_found text v)
   \<and> (misses net (get_req (readme_url t slug)) \<longrightarrow>
        (\<forall>f. net (head_req (css_url t slug)) = Reply f \<and> status_code f = 200 \<longrightarrow>
           check_plugin net t slug =
             (Inr \<lparr>plugin_slug = slug, is_installed = True, version = None,
                   detected_by = Some ''asset file'', plugin_url = Some (css_url t slug)\<rparr>,
              [get_req (readme_url t slug), head_req (css_url t slug)]))
        \<and> (misses net (head_req (css_url t slug)) \<longrightarrow>
             check_plugin net t slug =
               (Inr \<lparr>plugin_slug = slug, is_installed = False, version = None,
                     detected_by = None, plugin_url = None\<rparr>,
                [get_req (readme_url t slug), head_req (css_url t slug)])))"
  by (auto simp: check_plugin_readme_hit check_plugin_readme_miss asset_check_hit
        asset_check_miss init_plugin_info_def stable_tag_search_iff)

text \<open>
  The theorem at a readme with \<open>Stable tag: 5.4.2\<close> on its second line; at a readme with
  the tag in capitals, a tab and a blank before \<open>5.3.1-beta\<close>, of which the version is
  \<open>5.3.1\<close>; at a readme with \<open>Stable tag: trunk\<close>, which is installed without a version;
  at a site that only serves the style sheet; and at a site that does not answer.
\<close>

theorem check_plugin_order_witness:
  "check_plugin cf7_site ''http://wp.test'' ''contact-form-7'' =
     (Inr \<lparr>plugin_slug = ''contact-form-7'', is_installed = True, version = Some ''5.4.2'',
           detected_by = Some ''readme.txt'',
           plugin_url = Some (readme_url ''http://wp.test'' ''contact-form-7'')\<rparr>,
      [get_req (readme_url ''http://wp.test'' ''contact-form-7'')])
   \<and> check_plugin tabbed_site ''http://wp.test'' ''akismet'' =
     (Inr \<lparr>plugin_slug = ''akismet'', is_installed = True, version = Some ''5.3.1'',
           detected_by = Some ''readme.txt'',
           plugin_url = Some (readme_url ''http://wp.test'' ''akismet'')\<rparr>,
      [get_req (readme_url ''http://wp.test'' ''akismet'')])
   \<and> check_plugin untagged_site ''http://wp.test'' ''akismet'' =
     (Inr \<lparr>plugin_slug = ''akismet'', is_installed = True, version = None,
           detected_by = Some ''readme.txt'',
           plugin_url = Some (readme_url ''http://wp.test'' ''akismet'')\<rparr>,
      [get_req (readme_url ''http://wp.test'' ''akismet'')])
   \<and> stable_tag_found tabbed_readme ''5.3.1''
   \<and> \<not> stable_tag_found untagged_readme ''5.4.2''
   \<and> check_plugin asset_site ''http://wp.test'' ''jetpack'' =
     (Inr \<lparr>plugin_slug = ''jetpack'', is_installed = True, version = None,
           detected_by = Some ''asset file'',
           plugin_url = Some (css_url ''http://wp.test'' ''jetpack'')\<rparr>,
      [get_req (readme_url ''http://wp.test'' ''jetpack''),
       head_req (css_url ''http://wp.test'' ''jetpack'')])
   \<and> check_plugin dead_site ''http://wp.test'' ''akismet'' =
     (Inr \<lparr>plugin_slug = ''akismet'', is_installed = False, version = None,
           detected_by = None, plugin_url = None\<rparr>,
      [get_req (readme_url ''http://wp.test'' ''akismet''),
       head_req (css_url ''http://wp.test'' ''akismet'')])"
proof -
  have r1: "cf7_site (get_req (readme_url ''http://wp.test'' ''contact-form-7'')) =
             Reply \<lparr>status_code = 200, resp_url = ''http://wp.test/'',
                    resp_text = cf7_readme, resp_json = None\<rparr>"
    by (simp add: cf7_site_def table_net_def page_def)
  have v1: "re_search stable_tag_at cf7_readme = Some ''5.4.2''"
    by code_simp
  have r2: "tabbed_site (get_req (readme_url ''http://wp.test'' ''akismet'')) =
             Reply \<lparr>status_code = 200, resp_url = ''http://wp.test/'',
                    resp_text = tabbed_readme, resp_json = None\<rparr>"
    by (simp add: tabbed_site_def table_net_def page_def)
  have v2: "re_search stable_tag_at tabbed_readme = Some ''5.3.1''"
    by code_simp
  have r3: "untagged_site (get_req (readme_url ''http://wp.test'' ''akismet'')) =
             Reply \<lparr>status_code = 200, resp_url = ''http://wp.test/'',
                    resp_text = untagged_readme, resp_json = None\<rparr>"
    by (simp add: untagged_site_def table_net_def page_def)
  have v3: "re_search stable_tag_at untagged_readme = None"
    by code_simp
  have m1: "misses asset_site (get_req (readme_url ''http://wp.test'' ''jetpack''))"
    by code_simp
  have f: "asset_site (head_req (css_url ''http://wp.test'' ''jetpack'')) =
             Reply \<lparr>status_code = 200, resp_url = ''http://wp.test/'',
                    resp_text = [], resp_json = None\<rparr>"
    by code_simp
  have m2: "misses dead_site (get_req (readme_url ''http://wp.test'' ''akismet''))"
    by code_simp
  have m3: "misses dead_site (head_req (css_url ''http://wp.test'' ''akismet''))"
    by code_simp
  note a = check_plugin_order [of cf7_site "''http://wp.test''" "''contact-form-7''"]
  note b = check_plugin_order [of tabbed_site "''http://wp.test''" "''akismet''"]
  note c = check_plugin_order [of untagged_site "''http://wp.test''" "''akismet''"]
  note d = check_plugin_order [of asset_site "''http://wp.test''" "''jetpack''"]
  note e = check_plugin_order [of dead_site "''http://wp.test''" "''akismet''"]
  from b have found: "re_search stable_tag_at body = Some v \<longleftrightarrow> stable_tag_found body v"
    for body v
    by blast
  have p1: "check_plugin cf7_site ''http://wp.test'' ''contact-form-7'' =
     (Inr \<lparr>plugin_slug = ''contact-form-7'', is_installed = True, version = Some ''5.4.2'',
           detected_by = Some ''readme.txt'',
           plugin_url = Some (readme_url ''http://wp.test'' ''contact-form-7'')\<rparr>,
      [get_req (readme_url ''http://wp.test'' ''contact-form-7'')])"
    using a r1 v1 by simp
  have p2: "check_plugin tabbed_site ''http://wp.test'' ''akismet'' =
     (Inr \<lparr>plugin_slug = ''akismet'', is_installed = True, version = Some ''5.3.1'',
           detected_by = Some ''readme.txt'',
           plugin_url = Some (readme_url ''http://wp.test'' ''akismet'')\<rparr>,
      [get_req (readme_url ''http://wp.test'' ''akismet'')])"
    using b r2 v2 by simp
  have p3: "check_plugin untagged_site ''http://wp.test'' ''akismet'' =
     (Inr \<lparr>plugin_slug = ''akismet'', is_installed = True, version = None,
           detected_by = Some ''readme.txt'',
           plugin_url = Some (readme_url ''http://wp.test'' ''akismet'')\<rparr>,
      [get_req (readme_url ''http://wp.test'' ''akismet'')])"
    using c r3 v3 by simp
  have p4: "stable_tag_found tabbed_readme ''5.3.1''"
    using found [of tabbed_readme "''5.3.1''"] v2 by simp
  have p5: "\<not> stable_tag_found untagged_readme ''5.4.2''"
    using found [of untagged_readme "''5.4.2''"] v3 by simp
  have p6: "check_plugin asset_site ''http://wp.test'' ''jetpack'' =
     (Inr \<lparr>plugin_slug = ''jetpack'', is_installed = True, version = None,
           detected_by = Some ''asset file'',
           plugin_url = Some (css_url ''http://wp.test'' ''jetpack'')\<rparr>,
      [get_req (readme_url ''http://wp.test'' ''jetpack''),
       head_req (css_url ''http://wp.test'' ''jetpack'')])"
    using d m1 f by simp
  have p7: "check_plugin dead_site ''http://wp.test'' ''akismet'' =
     (Inr \<lparr>plugin_slug = ''akismet'', is_installed = False, version = None,
           detected_by = None, plugin_url = None\<rparr>,
      [get_req (readme_url ''http://wp.test'' ''akismet''),
       head_req (css_url ''http://wp.test'' ''akismet'')])"
    using e m2 m3 by simp
  from p1 p2 p3 p4 p5 p6 p7 show ?thesis by (intro conjI)
qed

text \<open>What the version pattern captures is a non-empty run of digits and dots.\<close>

lemma stable_tag_group:
  "re_search stable_tag_at s = Some v \<Longrightarrow> v \<noteq> [] \<and> list_all ver_char v"
  unfolding stable_tag_search_iff stable_tag_found_def stable_tag_match_def by blast

section \<open>Properties of the version comparison\<close>

lemma kind_dot: "kind CHR ''.'' = KDot"
  by (simp add: kind_def is_digit_def is_lower_def)

lemma kind_zero: "kind CHR ''0'' = KDigit"
  by (simp add: kind_def is_digit_def)

lemma takeWhile_kind_suffix:
  "k \<noteq> KDot \<Longrightarrow>
   takeWhile (\<lambda>d. kind d = k) (cs @ CHR ''.'' # rest) = takeWhile (\<lambda>d. kind d = k) cs"
  by (induction cs) (auto simp: kind_dot)

lemma dropWhile_kind_suffix:
  "k \<noteq> KDot \<Longrightarrow>
   dropWhile (\<lambda>d. kind d = k) (cs @ CHR ''.'' # rest)
     = dropWhile (\<lambda>d. kind d = k) cs @ CHR ''.'' # rest"
  by (induction cs) (auto simp: kind_dot)

lemma components_dot_zero: "components ''.0'' = [''0'']"
  by (simp add: kind_dot kind_zero)

lemma components_suffix: "components (v @ ''.0'') = components v @ [''0'']"
proof (induction v rule: components.induct)
  case 1
  show ?case using components_dot_zero by simp
next
  case (2 c cs)
  show ?case
  proof (cases "kind c = KDot")
    case True
    with 2 show ?thesis by simp
  next
    case False
    with 2 show ?thesis
      by (simp add: takeWhile_kind_suffix dropWhile_kind_suffix)
  qed
qed

lemma component_of_zero: "component_of ''0'' = CInt 0"
  by (simp add: component_of_def py_int_def int_max_str_digits_def is_digit_def digits_val_def
      digit_val_def)

lemma parse_suffix: "parse (v @ ''.0'') = parse v @ [CInt 0]"
  by (simp add: parse_def components_suffix component_of_zero)

lemma list_lt_snoc: "list_lt xs (xs @ [c]) = Inr True"
  by (induction xs) auto

lemma version_lt_suffix: "v \<noteq> [] \<Longrightarrow> version_lt (JStr v) (JStr (v @ ''.0'')) = Inr True"
  by (simp add: version_lt_def parse_suffix list_lt_snoc)

lemma version_lt_1_9_1_10: "version_lt (JStr ''1.9'') (JStr ''1.10'') = Inr True"
  by code_simp

lemma list_lt_ints: "list_lt (map CInt xs) (map CInt ys) = Inr (ord_class.lexordp xs ys)"
proof (induction xs arbitrary: ys)
  case Nil
  then show ?case by (cases ys) auto
next
  case (Cons x xs)
  then show ?case by (cases ys) auto
qed


lemma version_lt_defined:
  "version_lt (JStr a) (JStr b) = Inr c \<Longrightarrow> a \<noteq> [] \<and> b \<noteq> []"
  by (auto simp: version_lt_def split: if_splits)

text \<open>A run of digits is one piece; beyond the digit limit of \<open>int\<close> it stays a string,
  and then does not compare with a number.\<close>

lemma components_digits:
  assumes "s \<noteq> []" and "list_all is_digit s"
  shows "components s = [s]"
proof -
  from assms obtain c cs where s: "s = c # cs" by (cases s) auto
  from assms(2) have all: "\<forall>d \<in> set s. kind d = KDigit"
    by (auto simp: list_all_iff kind_def)
  then have c: "kind c = KDigit" by (simp add: s)
  from all have tw: "takeWhile (\<lambda>d. kind d = KDigit) cs = cs"
    and dw: "dropWhile (\<lambda>d. kind d = KDigit) cs = []"
    by (simp_all add: s)
  have "components (c # cs) = (c # takeWhile (\<lambda>d. kind d = KDigit) cs)
          # components (dropWhile (\<lambda>d. kind d = KDigit) cs)"
    using c by simp
  then show ?thesis by (simp only: tw dw s components.simps(1))
qed

lemma parse_long_digits:
  assumes "list_all is_digit s" and "int_max_str_digits < length s"
  shows "parse s = [CStr s]"
proof -
  from assms(2) have "s \<noteq> []" by auto
  from this assms(1) have "components s = [s]" by (rule components_digits)
  with assms(2) show ?thesis
    by (simp add: parse_def component_of_def py_int_def)
qed

lemma parse_two: "parse ''2'' = [CInt 2]"
  by code_simp

lemma version_lt_long_digits:
  assumes "list_all is_digit s" and "int_max_str_digits < length s"
  shows "version_lt (JStr s) (JStr ''2'') = Inl TypeError"
proof -
  from assms(2) have "s \<noteq> []" by auto
  with assms show ?thesis
    by (simp add: version_lt_def parse_long_digits parse_two)
qed

section \<open>Properties of the vulnerability lookup\<close>

subsection \<open>The two tiers\<close>

lemma read_registry_keeps:
  "vulnerabilities (fst (read_registry ver rp res)) = vulnerabilities res
   \<and> r_error (fst (read_registry ver rp res)) = r_error res
   \<and> source (fst (read_registry ver rp res)) = source res"
  by (auto simp: read_registry_def Let_def compare_versions_def
      split: reply.splits option.splits json.splits sum.splits)

lemma tier1_report:
  "fst (tier1 net slug ver res0 sent) =
     (case read_registry ver (net (registry_request slug))
             (res0\<lparr>source := ''WordPress.org API''\<rparr>) of
        (res, None) \<Rightarrow> res
      | (res, Some e) \<Rightarrow> res\<lparr>is_outdated := True\<rparr>)"
  by (simp add: tier1_def tier1_try_def send_def split: prod.splits option.splits)

lemma tier1_sent: "snd (tier1 net slug ver res0 sent) = sent @ [registry_request slug]"
  by (simp add: tier1_def tier1_try_def send_def split: prod.splits option.splits)

lemma tier2_report:
  "fst (tier2 net slug ver tok res0 sent) =
     (case read_wpscan slug ver (net (wpscan_request slug tok))
             (res0\<lparr>source := ''WPScan API (Outdated)''\<rparr>) of
        (res, None) \<Rightarrow> res
      | (res, Some e) \<Rightarrow> res\<lparr>r_error := Some e\<rparr>)"
  by (simp add: tier2_def tier2_try_def send_def split: prod.splits option.splits)

lemma tier2_sent: "snd (tier2 net slug ver tok res0 sent) = sent @ [wpscan_request slug tok]"
  by (simp add: tier2_def tier2_try_def send_def split: prod.splits option.splits)

lemma after_tier1_report:
  "after_tier1 net slug ver =
     (case read_registry ver (net (registry_request slug))
             ((init_report slug ver)\<lparr>source := ''WordPress.org API''\<rparr>) of
        (res, None) \<Rightarrow> res
      | (res, Some e) \<Rightarrow> res\<lparr>is_outdated := True\<rparr>)"
  by (simp add: after_tier1_def tier1_report)

lemma after_tier1_keeps:
  "vulnerabilities (after_tier1 net slug ver) = []
   \<and> r_error (after_tier1 net slug ver) = None
   \<and> source (after_tier1 net slug ver) = ''WordPress.org API''"
  using read_registry_keeps [of ver "net (registry_request slug)"
          "(init_report slug ver)\<lparr>source := ''WordPress.org API''\<rparr>"]
  by (auto simp: after_tier1_report init_report_def split: prod.splits option.splits)

lemma after_tier1_fails:
  "registry_fails net slug \<Longrightarrow> is_outdated (after_tier1 net slug ver)"
  by (auto simp: after_tier1_report read_registry_def registry_fails_def
      split: reply.splits prod.splits option.splits)


lemma final_label_keeps:
  "is_outdated (final_label tok res) = is_outdated res
   \<and> latest_version (final_label tok res) = latest_version res
   \<and> vulnerabilities (final_label tok res) = vulnerabilities res
   \<and> r_error (final_label tok res) = r_error res"
  by (simp add: final_label_def)

lemma report_cases:
  "fst (get_plugin_cves net tok slug ver) =
     (if tier2_runs tok ver (after_tier1 net slug ver)
      then final_label tok
             (fst (tier2 net slug ver (the tok) (after_tier1 net slug ver)
                     [registry_request slug]))
      else final_label tok (after_tier1 net slug ver))"
proof -
  obtain res1 sent1 where t1: "tier1 net slug ver (init_report slug ver) [] = (res1, sent1)"
    by (cases "tier1 net slug ver (init_report slug ver) []") auto
  from t1 have res1: "res1 = after_tier1 net slug ver"
    by (simp add: after_tier1_def)
  from t1 tier1_sent [of net slug ver "init_report slug ver" "[]"]
  have sent1: "sent1 = [registry_request slug]" by simp
  from t1 show ?thesis
    by (simp add: get_plugin_cves_def res1 [symmetric] sent1 split: prod.splits)
qed

lemma sent_cases:
  "snd (get_plugin_cves net tok slug ver) =
     (if tier2_runs tok ver (after_tier1 net slug ver)
      then [registry_request slug, wpscan_request slug (the tok)]
      else [registry_request slug])"
proof -
  obtain res1 sent1 where t1: "tier1 net slug ver (init_report slug ver) [] = (res1, sent1)"
    by (cases "tier1 net slug ver (init_report slug ver) []") auto
  from t1 have res1: "res1 = after_tier1 net slug ver"
    by (simp add: after_tier1_def)
  from t1 tier1_sent [of net slug ver "init_report slug ver" "[]"]
  have sent1: "sent1 = [registry_request slug]" by simp
  obtain res2 sent2 where t2: "tier2 net slug ver (the tok) res1 sent1 = (res2, sent2)"
    by (cases "tier2 net slug ver (the tok) res1 sent1") auto
  from t2 tier2_sent [of net slug ver "the tok" res1 sent1]
  have sent2: "sent2 = [registry_request slug, wpscan_request slug (the tok)]"
    by (simp add: sent1)
  from t1 t2 show ?thesis
    by (simp add: get_plugin_cves_def res1 [symmetric] sent1 sent2)
qed

subsection \<open>The flag and the latest version\<close>

lemma read_paid_outdated:
  "is_outdated (fst (read_paid slug ver data res)) =
     (case data of
        JObj d \<Rightarrow>
          (case dict_get_default d slug (JObj []) of
             JObj pd \<Rightarrow>
               (if truthy (dict_get pd ''latest_version'') \<and> truthy_str ver
                then (case version_lt (JStr (the ver)) (dict_get pd ''latest_version'') of
                        Inr b \<Rightarrow> b | Inl e \<Rightarrow> is_outdated res)
                else is_outdated res)
           | _ \<Rightarrow> is_outdated res)
      | _ \<Rightarrow> is_outdated res)"
  by (auto simp: read_paid_def compare_versions_def
      split: json.splits sum.splits prod.splits)

lemma read_paid_latest:
  "latest_version (fst (read_paid slug ver data res)) =
     (case data of
        JObj d \<Rightarrow>
          (case dict_get_default d slug (JObj []) of
             JObj pd \<Rightarrow>
               (if truthy (dict_get pd ''latest_version'')
                then dict_get pd ''latest_version'' else latest_version res)
           | _ \<Rightarrow> latest_version res)
      | _ \<Rightarrow> latest_version res)"
  by (auto simp: read_paid_def compare_versions_def
      split: json.splits sum.splits prod.splits)

lemma tier2_outdated:
  "is_outdated (fst (tier2 net slug ver tok res sent)) =
     (if truthy_str ver \<and> truthy (paid_latest net slug tok)
      then (case version_lt (JStr (the ver)) (paid_latest net slug tok) of
              Inr b \<Rightarrow> b | Inl e \<Rightarrow> is_outdated res)
      else is_outdated res)"
proof -
  have "is_outdated (fst (tier2 net slug ver tok res sent)) =
          is_outdated (fst (read_wpscan slug ver (net (wpscan_request slug tok))
                              (res\<lparr>source := ''WPScan API (Outdated)''\<rparr>)))"
    by (simp add: tier2_report split: prod.splits option.splits)
  also have "\<dots> = (if truthy_str ver \<and> truthy (paid_latest net slug tok)
      then (case version_lt (JStr (the ver)) (paid_latest net slug tok) of
              Inr b \<Rightarrow> b | Inl e \<Rightarrow> is_outdated res)
      else is_outdated res)"
    by (auto simp: read_wpscan_def paid_latest_def read_paid_outdated
        split: reply.splits option.splits json.splits sum.splits)
  finally show ?thesis .
qed

lemma tier2_latest:
  "latest_version (fst (tier2 net slug ver tok res sent)) =
     (if truthy (paid_latest net slug tok) then paid_latest net slug tok
      else latest_version res)"
proof -
  have "latest_version (fst (tier2 net slug ver tok res sent)) =
          latest_version (fst (read_wpscan slug ver (net (wpscan_request slug tok))
                                 (res\<lparr>source := ''WPScan API (Outdated)''\<rparr>)))"
    by (simp add: tier2_report split: prod.splits option.splits)
  also have "\<dots> = (if truthy (paid_latest net slug tok) then paid_latest net slug tok
      else latest_version res)"
    by (auto simp: read_wpscan_def paid_latest_def read_paid_latest
        split: reply.splits option.splits json.splits)
  finally show ?thesis .
qed

lemma tier1_compared:
  assumes "latest_version (after_tier1 net slug (Some a)) = JStr b"
    and "version_lt (JStr a) (JStr b) = Inr c"
  shows "is_outdated (after_tier1 net slug (Some a)) = c"
proof -
  from assms(2) have ne: "a \<noteq> []" "b \<noteq> []"
    using version_lt_defined by blast+
  with assms show ?thesis
    by (auto simp: after_tier1_report read_registry_def Let_def compare_versions_def
          init_report_def
        split: reply.splits option.splits json.splits sum.splits if_splits)
qed

text \<open>
  Claim C2, as the code has it. Wherever \<open>LooseVersion(installed) < LooseVersion(latest)\<close>
  is defined for the installed version and the latest version that the report ends with,
  the flag of the report is its value, whether the latest version came from the free
  registry (line 113) or from the paid database (line 140). Components that are numbers
  compare as numbers, and lists of numbers in the order of the dictionary: \<open>1.9\<close> is
  below \<open>1.10\<close>. Nothing is padded with zeros: a version
  whose components are a proper prefix of another's is below it, so every \<open>v\<close> that is
  not empty is below \<open>v.0\<close>, and installed \<open>v\<close> against latest \<open>v.0\<close> is reported outdated.
\<close>

theorem version_comparison_loose:
  "version_lt (JStr ''1.9'') (JStr ''1.10'') = Inr True
   \<and> list_lt (map CInt ms) (map CInt ns) = Inr (ord_class.lexordp ms ns)
   \<and> (v \<noteq> [] \<longrightarrow> version_lt (JStr v) (JStr (v @ ''.0'')) = Inr True)
   \<and> (latest_version (fst (get_plugin_cves net api_token slug (Some a))) = JStr b
        \<and> version_lt (JStr a) (JStr b) = Inr c
      \<longrightarrow> is_outdated (fst (get_plugin_cves net api_token slug (Some a))) = c)"
proof -
  let ?r1 = "after_tier1 net slug (Some a)"
  have main: "is_outdated (fst (get_plugin_cves net api_token slug (Some a))) = c"
    if latest: "latest_version (fst (get_plugin_cves net api_token slug (Some a))) = JStr b"
      and lt: "version_lt (JStr a) (JStr b) = Inr c"
  proof (cases "tier2_runs api_token (Some a) ?r1")
    case False
    with latest have "latest_version ?r1 = JStr b"
      by (simp add: report_cases final_label_keeps)
    from this lt have "is_outdated ?r1 = c" by (rule tier1_compared)
    with False show ?thesis by (simp add: report_cases final_label_keeps)
  next
    case True
    let ?p = "paid_latest net slug (the api_token)"
    from lt have ne: "a \<noteq> []" using version_lt_defined by blast
    show ?thesis
    proof (cases "truthy ?p")
      case paid: True
      with True latest have "?p = JStr b"
        by (simp add: report_cases final_label_keeps tier2_latest)
      with True paid ne lt show ?thesis
        by (simp add: report_cases final_label_keeps tier2_outdated)
    next
      case paid: False
      with True latest have "latest_version ?r1 = JStr b"
        by (simp add: report_cases final_label_keeps tier2_latest)
      from this lt have "is_outdated ?r1 = c" by (rule tier1_compared)
      with True paid show ?thesis
        by (simp add: report_cases final_label_keeps tier2_outdated)
    qed
  qed
  from main show ?thesis
    by (simp add: version_lt_suffix version_lt_1_9_1_10 list_lt_ints)
qed

text \<open>
  Claim C2 as stated asks that installed \<open>1.9\<close> against latest \<open>1.9.0\<close> be equal, hence not
  outdated. The code reports it outdated.
\<close>

theorem version_padding_counterexample:
  "is_outdated (fst (get_plugin_cves padded_registry None ''akismet'' (Some ''1.9'')))"
  by code_simp

text \<open>The theorem at installed \<open>1.9\<close>: against \<open>1.10\<close> from the free registry, against
  \<open>1.10\<close> from the paid database, and against \<open>1.9.0\<close>.\<close>

theorem version_comparison_loose_witness:
  "is_outdated (fst (get_plugin_cves newer_registry None ''akismet'' (Some ''1.9'')))
   \<and> is_outdated (fst (get_plugin_cves (premium_site newer_paid) (Some ''k'') ''slider''
                         (Some ''1.9'')))
   \<and> is_outdated (fst (get_plugin_cves padded_registry None ''akismet'' (Some ''1.9'')))
   \<and> version_lt (JStr ''1.9'') (JStr ''1.10'') = Inr True
   \<and> version_lt (JStr ''1.9'') (JStr ''1.9.0'') = Inr True"
proof -
  have l1: "latest_version (fst (get_plugin_cves newer_registry None ''akismet'' (Some ''1.9'')))
              = JStr ''1.10''"
    by code_simp
  have l2: "latest_version (fst (get_plugin_cves (premium_site newer_paid) (Some ''k'') ''slider''
                                   (Some ''1.9''))) = JStr ''1.10''"
    by code_simp
  have l3: "latest_version (fst (get_plugin_cves padded_registry None ''akismet'' (Some ''1.9'')))
              = JStr ''1.9.0''"
    by code_simp
  note t1 = version_comparison_loose
    [where net = newer_registry and api_token = None and slug = "''akismet''"
       and a = "''1.9''" and b = "''1.10''" and c = True and v = "''1.9''"]
  note t2 = version_comparison_loose
    [where net = "premium_site newer_paid" and api_token = "Some ''k''" and slug = "''slider''"
       and a = "''1.9''" and b = "''1.10''" and c = True and v = "''1.9''"]
  note t3 = version_comparison_loose
    [where net = padded_registry and api_token = None and slug = "''akismet''"
       and a = "''1.9''" and b = "''1.9.0''" and c = True and v = "''1.9''"]
  from t1 l1 have a: "is_outdated (fst (get_plugin_cves newer_registry None ''akismet''
                                          (Some ''1.9'')))"
    by simp
  from t2 l2 have b: "is_outdated (fst (get_plugin_cves (premium_site newer_paid) (Some ''k'')
                                          ''slider'' (Some ''1.9'')))"
    by simp
  from t3 have lt: "version_lt (JStr ''1.9'') (JStr ''1.9.0'') = Inr True"
    by simp
  with t3 l3 have c: "is_outdated (fst (get_plugin_cves padded_registry None ''akismet''
                                          (Some ''1.9'')))"
    by simp
  from t1 have d: "version_lt (JStr ''1.9'') (JStr ''1.10'') = Inr True"
    by simp
  from a b c d lt show ?thesis by (intro conjI)
qed

text \<open>
  Claim C3, as the code has it. When the registry request raises or is answered with
  another status than 200, the report is outdated after the first tier, for every slug and
  every installed version. The returned report is outdated as well, except when a
  credential is configured, the installed version is known, and the paid database gives a
  latest version that the installed version is not below: the second tier then
  recomputes the flag against that version (lines 137 to 140).
\<close>

theorem registry_failure_outdated:
  assumes "registry_fails net slug"
  shows "is_outdated (after_tier1 net slug ver)
         \<and> is_outdated (fst (get_plugin_cves net api_token slug ver)) =
             (\<not> (truthy_str api_token \<and> truthy_str ver
                  \<and> truthy (paid_latest net slug (the api_token))
                  \<and> version_lt (JStr (the ver)) (paid_latest net slug (the api_token))
                       = Inr False))"
proof -
  let ?r1 = "after_tier1 net slug ver"
  from assms have out: "is_outdated ?r1" by (rule after_tier1_fails)
  show ?thesis
  proof (cases "truthy_str api_token")
    case True
    with out have "tier2_runs api_token ver ?r1" by (simp add: tier2_runs_def)
    with out True show ?thesis
      by (auto simp: report_cases final_label_keeps tier2_outdated split: sum.splits)
  next
    case False
    then have "\<not> tier2_runs api_token ver ?r1" by (simp add: tier2_runs_def)
    with out False show ?thesis
      by (simp add: report_cases final_label_keeps)
  qed
qed

text \<open>
  Claim C3 as stated: the registry answers 404, a credential is configured, and the paid
  database gives the installed version \<open>2.0\<close> as the latest one. The returned report is
  not outdated.
\<close>

theorem registry_failure_counterexample:
  "registry_fails (premium_site (JObj [(''latest_version'', JStr ''2.0'')])) ''slider''
   \<and> \<not> is_outdated (fst (get_plugin_cves (premium_site (JObj [(''latest_version'', JStr ''2.0'')]))
                          (Some ''k'') ''slider'' (Some ''2.0'')))"
  by code_simp

text \<open>
  The theorem at a registry that does not answer, without a credential, and at a registry
  that answers 404 with a credential, a paid latest version \<open>2\<close> and an installed version
  of 4301 digits: that version stays a string, its comparison with \<open>2\<close> raises, and the
  report stays outdated.
\<close>

theorem registry_failure_outdated_witness:
  "registry_fails dead_site ''akismet''
   \<and> is_outdated (after_tier1 dead_site ''akismet'' (Some ''5.4.2''))
   \<and> is_outdated (fst (get_plugin_cves dead_site None ''akismet'' (Some ''5.4.2'')))
   \<and> registry_fails (premium_site (JObj [(''latest_version'', JStr ''2'')])) ''slider''
   \<and> is_outdated (fst (get_plugin_cves (premium_site (JObj [(''latest_version'', JStr ''2'')]))
                         (Some ''k'') ''slider'' (Some (replicate 4301 CHR ''1''))))"
proof -
  let ?site = "premium_site (JObj [(''latest_version'', JStr ''2'')])"
  let ?long = "replicate 4301 CHR ''1''"
  have f: "registry_fails dead_site ''akismet''" by code_simp
  have g: "registry_fails ?site ''slider''" by code_simp
  have p: "paid_latest ?site ''slider'' ''k'' = JStr ''2''" by code_simp
  have "list_all is_digit ?long"
    by (simp add: list_all_iff is_digit_def)
  moreover have "int_max_str_digits < length ?long"
    by (simp add: int_max_str_digits_def)
  ultimately have lt: "version_lt (JStr ?long) (JStr ''2'') = Inl TypeError"
    by (rule version_lt_long_digits)
  from registry_failure_outdated [OF f, of "Some ''5.4.2''" None]
  have a: "is_outdated (after_tier1 dead_site ''akismet'' (Some ''5.4.2''))
           \<and> is_outdated (fst (get_plugin_cves dead_site None ''akismet'' (Some ''5.4.2'')))"
    by simp
  from registry_failure_outdated [OF g, of "Some ?long" "Some ''k''"] p lt
  have b: "is_outdated (fst (get_plugin_cves ?site (Some ''k'') ''slider'' (Some ?long)))"
    by simp
  from f g a b show ?thesis by (intro conjI) simp_all
qed

text \<open>
  Claim C4. The request to the paid database is sent exactly when a credential is
  configured (a non-empty \<open>WPSCAN_API_TOKEN\<close>) and the first tier left the report outdated
  or left no latest version while the installed version is known (non-empty): the
  requests of a run are then the one to the registry and the one to the paid database,
  and otherwise the one to the registry alone. Without a credential no request to the
  paid database is sent and the list of vulnerabilities is empty.
\<close>

theorem paid_tier_gate:
  "snd (get_plugin_cves net api_token slug ver) =
     (if truthy_str api_token
         \<and> (is_outdated (after_tier1 net slug ver)
            \<or> (truthy_str ver \<and> \<not> truthy (latest_version (after_tier1 net slug ver))))
      then [registry_request slug, wpscan_request slug (the api_token)]
      else [registry_request slug])
   \<and> (\<not> truthy_str api_token \<longrightarrow>
        vulnerabilities (fst (get_plugin_cves net api_token slug ver)) = []
        \<and> (\<forall>tok. wpscan_request slug tok \<notin> set (snd (get_plugin_cves net api_token slug ver))))"
proof -
  let ?r1 = "after_tier1 net slug ver"
  have neq: "wpscan_request slug tok \<noteq> registry_request slug" for tok
    by (simp add: registry_request_def wpscan_request_def get_req_def)
  have gate: "tier2_runs api_token ver ?r1 =
                (truthy_str api_token
                 \<and> (is_outdated ?r1 \<or> (truthy_str ver \<and> \<not> truthy (latest_version ?r1))))"
    by (auto simp: tier2_runs_def is_unknown_def)
  have none: "vulnerabilities (fst (get_plugin_cves net api_token slug ver)) = []
              \<and> (\<forall>tok. wpscan_request slug tok
                         \<notin> set (snd (get_plugin_cves net api_token slug ver)))"
    if "\<not> truthy_str api_token"
  proof -
    from that have "\<not> tier2_runs api_token ver ?r1" by (simp add: tier2_runs_def)
    then show ?thesis
      by (simp add: sent_cases report_cases final_label_keeps after_tier1_keeps neq)
  qed
  from gate none show ?thesis by (simp add: sent_cases)
qed

text \<open>
  The theorem at installed \<open>5.4.2\<close> against the registry's \<open>5.5.0\<close>: without a credential
  the report is outdated, labelled with the free registry, and has no vulnerabilities;
  with one the paid database is asked. At installed \<open>5.5.0\<close> the report is up to date
  after the first tier, and the paid database is not asked even with a credential.
\<close>

theorem paid_tier_gate_witness:
  "get_plugin_cves cf7_registry None ''contact-form-7'' (Some ''5.4.2'') =
     (\<lparr>r_plugin_slug = ''contact-form-7'', r_version = Some ''5.4.2'', vulnerabilities = [],
       is_outdated = True, latest_version = JStr ''5.5.0'', source = ''WordPress.org API'',
       r_error = None\<rparr>,
      [registry_request ''contact-form-7''])
   \<and> snd (get_plugin_cves cf7_registry (Some ''k'') ''contact-form-7'' (Some ''5.4.2'')) =
       [registry_request ''contact-form-7'', wpscan_request ''contact-form-7'' ''k'']
   \<and> snd (get_plugin_cves cf7_registry (Some ''k'') ''contact-form-7'' (Some ''5.5.0'')) =
       [registry_request ''contact-form-7'']"
proof -
  have a: "get_plugin_cves cf7_registry None ''contact-form-7'' (Some ''5.4.2'') =
     (\<lparr>r_plugin_slug = ''contact-form-7'', r_version = Some ''5.4.2'', vulnerabilities = [],
       is_outdated = True, latest_version = JStr ''5.5.0'', source = ''WordPress.org API'',
       r_error = None\<rparr>,
      [registry_request ''contact-form-7''])"
    by code_simp
  have b: "is_outdated (after_tier1 cf7_registry ''contact-form-7'' (Some ''5.4.2''))"
    by code_simp
  have c: "\<not> is_outdated (after_tier1 cf7_registry ''contact-form-7'' (Some ''5.5.0''))"
    by code_simp
  have d: "truthy (latest_version (after_tier1 cf7_registry ''contact-form-7'' (Some ''5.5.0'')))"
    by code_simp
  from paid_tier_gate [of cf7_registry "Some ''k''" "''contact-form-7''" "Some ''5.4.2''"] b
  have p: "snd (get_plugin_cves cf7_registry (Some ''k'') ''contact-form-7'' (Some ''5.4.2'')) =
       [registry_request ''contact-form-7'', wpscan_request ''contact-form-7'' ''k'']"
    by simp
  from paid_tier_gate [of cf7_registry "Some ''k''" "''contact-form-7''" "Some ''5.5.0''"] c d
  have q: "snd (get_plugin_cves cf7_registry (Some ''k'') ''contact-form-7'' (Some ''5.5.0'')) =
       [registry_request ''contact-form-7'']"
    by simp
  from a p q show ?thesis by (intro conjI)
qed

subsection \<open>The findings\<close>

lemma vuln_step_obj:
  "vuln_step ver (JObj v) acc =
     Inr (acc @ (case finding ver (JObj v) of Some e \<Rightarrow> [e] | None \<Rightarrow> []))"
  by (auto simp: vuln_step_def finding_def Let_def split: sum.splits bool.splits)

lemma vuln_step_other: "\<not> is_obj x \<Longrightarrow> vuln_step ver x acc = Inl AttributeError"
  by (cases x) (simp_all add: vuln_step_def)

lemma vuln_loop_reached:
  "fst (vuln_loop ver entries acc) = acc @ List.map_filter (finding ver) (takeWhile is_obj entries)"
proof (induction entries arbitrary: acc)
  case Nil
  show ?case by simp
next
  case (Cons x entries)
  show ?case
  proof (cases "is_obj x")
    case True
    then obtain kvs where x: "x = JObj kvs" by (cases x) auto
    show ?thesis
      by (simp add: x vuln_step_obj Cons.IH split: option.splits)
  next
    case False
    then show ?thesis by (simp add: vuln_step_other)
  qed
qed

lemma read_paid_vulnerabilities:
  assumes "dict_get_default d slug (JObj []) = JObj pd"
    and "\<not> (truthy (dict_get pd ''latest_version'') \<and> truthy_str ver
            \<and> isl (version_lt (JStr (the ver)) (dict_get pd ''latest_version'')))"
  shows "vulnerabilities (fst (read_paid slug ver (JObj d) res)) =
           vulnerabilities res
             @ List.map_filter (finding ver)
                 (reached (dict_get_default pd ''vulnerabilities'' (JArr [])))"
  using assms
  by (auto simp: read_paid_def compare_versions_def reached_def vuln_loop_reached
      split: sum.splits prod.splits dest: arg_cong [where f = fst])

lemma tier2_vulnerabilities:
  "vulnerabilities (fst (tier2 net slug ver tok res sent)) =
     vulnerabilities (fst (read_wpscan slug ver (net (wpscan_request slug tok))
                             (res\<lparr>source := ''WPScan API (Outdated)''\<rparr>)))"
  by (simp add: tier2_report split: prod.splits option.splits)

text \<open>
  Claim C5, as the code has it. When the second tier runs, the paid database answers 200
  with an object whose entry for the slug is an object, and the comparison with its
  latest version (line 140) does not raise, the findings of the report are, in order,
  the findings of the entries that the loop reaches (it ends at an entry that is not an
  object): every entry without a fixed-in
  version, as \<open>Not fixed\<close>; every entry with a fixed-in version when the installed
  version is known and is below it, or when their comparison raises; and no entry with a
  fixed-in version when the installed version is not known (the \<open>elif version\<close> of
  line 153 has no \<open>else\<close>). What the report holds when the comparison of line 140
  raises is not part of this statement.
\<close>

theorem relevant_findings:
  assumes "tier2_runs api_token ver (after_tier1 net slug ver)"
    and "net (wpscan_request slug (the api_token)) = Reply r" and "status_code r = 200"
    and "resp_json r = Some (JObj d)" and "dict_get_default d slug (JObj []) = JObj pd"
    and "\<not> (truthy (dict_get pd ''latest_version'') \<and> truthy_str ver
            \<and> isl (version_lt (JStr (the ver)) (dict_get pd ''latest_version'')))"
  shows "vulnerabilities (fst (get_plugin_cves net api_token slug ver)) =
           List.map_filter (finding ver)
             (reached (dict_get_default pd ''vulnerabilities'' (JArr [])))"
proof -
  let ?r1 = "(after_tier1 net slug ver)\<lparr>source := ''WPScan API (Outdated)''\<rparr>"
  from assms(5,6)
  have "vulnerabilities (fst (read_paid slug ver (JObj d) ?r1)) =
          vulnerabilities ?r1
            @ List.map_filter (finding ver)
                (reached (dict_get_default pd ''vulnerabilities'' (JArr [])))"
    by (rule read_paid_vulnerabilities)
  with assms(2,3,4)
  have "vulnerabilities (fst (tier2 net slug ver (the api_token) (after_tier1 net slug ver)
                                [registry_request slug])) =
          List.map_filter (finding ver)
            (reached (dict_get_default pd ''vulnerabilities'' (JArr [])))"
    by (simp add: tier2_vulnerabilities read_wpscan_def after_tier1_keeps)
  with assms(1) show ?thesis
    by (simp add: report_cases final_label_keeps)
qed

text \<open>
  Claim C5 as stated, at a plugin the free registry does not know, with a credential.
  First, no installed version is known: of the two entries of the answer, the one fixed
  in \<open>2.0\<close> is left out, where the claim includes it. Second, the installed version is
  \<open>2.0.1\<close> and the paid database gives \<open>2.0-beta\<close> as the latest one: the comparison of
  line 140 raises, the loop does not run, and the entry that was never fixed is not in
  the report, where the claim always includes it. Third, the answer lists \<open>null\<close> before
  an entry that was never fixed: the loop ends at \<open>null\<close>, and that entry is not in the
  report either.
\<close>

theorem unversioned_finding_counterexample:
  "vulnerabilities (fst (get_plugin_cves (premium_site two_vulns) (Some ''k'') ''slider'' None)) =
     [\<lparr>v_title = JStr ''SQLi'', v_cve = JNull, v_fixed_in = JStr ''Not fixed''\<rparr>]
   \<and> version_lt (JStr ''2.0.1'') (JStr ''2.0-beta'') = Inl TypeError
   \<and> vulnerabilities (fst (get_plugin_cves (premium_site beta_latest) (Some ''k'') ''slider''
                             (Some ''2.0.1''))) = []
   \<and> vulnerabilities (fst (get_plugin_cves (premium_site null_entry) (Some ''k'') ''slider''
                             (Some ''1.0''))) = []"
  by code_simp

text \<open>
  The theorem at an entry fixed in \<open>2.0\<close> and an entry never fixed: installed \<open>1.5\<close>
  gets both, installed \<open>2.5\<close> only the second; and at an entry fixed in \<open>2.0-beta\<close>, which
  does not compare with the installed \<open>2.0.1\<close> and is reported.
\<close>

theorem relevant_findings_witness:
  "vulnerabilities (fst (get_plugin_cves (premium_site two_vulns) (Some ''k'') ''slider''
                           (Some ''1.5''))) =
     [\<lparr>v_title = JStr ''XSS'', v_cve = JNull, v_fixed_in = JStr ''2.0''\<rparr>,
      \<lparr>v_title = JStr ''SQLi'', v_cve = JNull, v_fixed_in = JStr ''Not fixed''\<rparr>]
   \<and> vulnerabilities (fst (get_plugin_cves (premium_site two_vulns) (Some ''k'') ''slider''
                             (Some ''2.5''))) =
     [\<lparr>v_title = JStr ''SQLi'', v_cve = JNull, v_fixed_in = JStr ''Not fixed''\<rparr>]
   \<and> vulnerabilities (fst (get_plugin_cves (premium_site beta_fix) (Some ''k'') ''slider''
                             (Some ''2.0.1''))) =
     [\<lparr>v_title = JStr ''XSS'', v_cve = JNull, v_fixed_in = JStr ''2.0-beta''\<rparr>]"
proof -
  let ?vulns = "[JObj [(''title'', JStr ''XSS''), (''fixed_in'', JStr ''2.0'')],
                 JObj [(''title'', JStr ''SQLi'')]]"
  let ?pd = "[(''vulnerabilities'', JArr ?vulns)]"
  let ?d = "[(''slider'', two_vulns)]"
  let ?r = "\<lparr>status_code = 200, resp_url = [], resp_text = [], resp_json = Some (JObj ?d)\<rparr>"
  let ?bvulns = "[JObj [(''title'', JStr ''XSS''), (''fixed_in'', JStr ''2.0-beta'')]]"
  let ?bpd = "[(''vulnerabilities'', JArr ?bvulns)]"
  let ?bd = "[(''slider'', beta_fix)]"
  let ?br = "\<lparr>status_code = 200, resp_url = [], resp_text = [], resp_json = Some (JObj ?bd)\<rparr>"
  have g1: "tier2_runs (Some ''k'') (Some ''1.5'')
              (after_tier1 (premium_site two_vulns) ''slider'' (Some ''1.5''))"
    by code_simp
  have g2: "tier2_runs (Some ''k'') (Some ''2.5'')
              (after_tier1 (premium_site two_vulns) ''slider'' (Some ''2.5''))"
    by code_simp
  have g3: "tier2_runs (Some ''k'') (Some ''2.0.1'')
              (after_tier1 (premium_site beta_fix) ''slider'' (Some ''2.0.1''))"
    by code_simp
  have r: "premium_site two_vulns (wpscan_request ''slider'' (the (Some ''k''))) = Reply ?r"
    by code_simp
  have br: "premium_site beta_fix (wpscan_request ''slider'' (the (Some ''k''))) = Reply ?br"
    by code_simp
  have s: "status_code ?r = 200" and j: "resp_json ?r = Some (JObj ?d)"
    and bs: "status_code ?br = 200" and bj: "resp_json ?br = Some (JObj ?bd)"
    by simp_all
  have d: "dict_get_default ?d ''slider'' (JObj []) = JObj ?pd"
    by code_simp
  have bd: "dict_get_default ?bd ''slider'' (JObj []) = JObj ?bpd"
    by code_simp
  have c: "\<not> (truthy (dict_get ?pd ''latest_version'') \<and> truthy_str ver
            \<and> isl (version_lt (JStr (the ver)) (dict_get ?pd ''latest_version'')))" for ver
    by (simp add: dict_get_def dict_get_default_def)
  have bc: "\<not> (truthy (dict_get ?bpd ''latest_version'') \<and> truthy_str ver
            \<and> isl (version_lt (JStr (the ver)) (dict_get ?bpd ''latest_version'')))" for ver
    by (simp add: dict_get_def dict_get_default_def)
  have f1: "List.map_filter (finding (Some ''1.5''))
              (reached (dict_get_default ?pd ''vulnerabilities'' (JArr []))) =
     [\<lparr>v_title = JStr ''XSS'', v_cve = JNull, v_fixed_in = JStr ''2.0''\<rparr>,
      \<lparr>v_title = JStr ''SQLi'', v_cve = JNull, v_fixed_in = JStr ''Not fixed''\<rparr>]"
    by code_simp
  have f2: "List.map_filter (finding (Some ''2.5''))
              (reached (dict_get_default ?pd ''vulnerabilities'' (JArr []))) =
     [\<lparr>v_title = JStr ''SQLi'', v_cve = JNull, v_fixed_in = JStr ''Not fixed''\<rparr>]"
    by code_simp
  have f3: "List.map_filter (finding (Some ''2.0.1''))
              (reached (dict_get_default ?bpd ''vulnerabilities'' (JArr []))) =
     [\<lparr>v_title = JStr ''XSS'', v_cve = JNull, v_fixed_in = JStr ''2.0-beta''\<rparr>]"
    by code_simp
  from relevant_findings [OF g1 r s j d c] f1
  have a1: "vulnerabilities (fst (get_plugin_cves (premium_site two_vulns) (Some ''k'') ''slider''
                           (Some ''1.5''))) =
     [\<lparr>v_title = JStr ''XSS'', v_cve = JNull, v_fixed_in = JStr ''2.0''\<rparr>,
      \<lparr>v_title = JStr ''SQLi'', v_cve = JNull, v_fixed_in = JStr ''Not fixed''\<rparr>]"
    by (simp only:)
  from relevant_findings [OF g2 r s j d c] f2
  have a2: "vulnerabilities (fst (get_plugin_cves (premium_site two_vulns) (Some ''k'') ''slider''
                             (Some ''2.5''))) =
     [\<lparr>v_title = JStr ''SQLi'', v_cve = JNull, v_fixed_in = JStr ''Not fixed''\<rparr>]"
    by (simp only:)
  from relevant_findings [OF g3 br bs bj bd bc] f3
  have a3: "vulnerabilities (fst (get_plugin_cves (premium_site beta_fix) (Some ''k'') ''slider''
                             (Some ''2.0.1''))) =
     [\<lparr>v_title = JStr ''XSS'', v_cve = JNull, v_fixed_in = JStr ''2.0-beta''\<rparr>]"
    by (simp only:)
  from a1 a2 a3 show ?thesis by (intro conjI)
qed

text \<open>
  Claim C6 at a plugin the free registry does not know (404), with a credential, the
  installed version \<open>1.0\<close>, and a paid answer with the latest version \<open>1.0\<close> and one
  vulnerability that was never fixed. The second tier runs and reports the
  vulnerability, and the label of the report is the one line 172 reserves for a skipped
  paid lookup.
\<close>

theorem source_label_after_paid_lookup:
  "get_plugin_cves (premium_site current_with_vuln) (Some ''k'') ''slider'' (Some ''1.0'') =
     (\<lparr>r_plugin_slug = ''slider'', r_version = Some ''1.0'',
       vulnerabilities = [\<lparr>v_title = JStr ''SQLi'', v_cve = JNull,
                           v_fixed_in = JStr ''Not fixed''\<rparr>],
       is_outdated = False, latest_version = JStr ''1.0'',
       source = ''WordPress.org API (Up to date)'', r_error = None\<rparr>,
      [registry_request ''slider'', wpscan_request ''slider'' ''k''])"
  by code_simp

subsection \<open>The exceptions\<close>









section \<open>Properties of the enumerator\<close>

lemma check_plugin_slug:
  "fst (check_plugin net t slug) = Inr info \<Longrightarrow> plugin_slug info = slug"
  by (auto simp: check_plugin_def asset_check_def send_def init_plugin_info_def
      split: reply.splits exn.splits if_splits)

lemma html_loop_inv:
  "html_inv rest st \<Longrightarrow> html_inv [] (html_loop net t rest st)"
proof (induction rest arbitrary: st)
  case Nil
  then show ?case by simp
next
  case (Cons slug rest)
  obtain ps found_slugs probed where st: "st = (ps, found_slugs, probed)"
    by (cases st) auto
  from Cons.prems have inv: "(\<forall>p \<in> set ps. is_installed p)" "distinct (map plugin_slug ps)"
    "set (map plugin_slug ps) = found_slugs" "found_slugs \<subseteq> set probed" "distinct probed"
    "slug \<notin> set probed" "set probed \<inter> set rest = {}" "slug \<notin> set rest" "distinct rest"
    by (auto simp: html_inv_def st)
  then have fresh: "slug \<notin> found_slugs" by auto
  show ?case
  proof (cases "fst (check_plugin net t slug)")
    case (Inl e)
    with fresh inv show ?thesis
      by (auto simp: st html_inv_def)
  next
    case (Inr info)
    then have slug: "plugin_slug info = slug" by (rule check_plugin_slug)
    show ?thesis
    proof (cases "is_installed info")
      case True
      from inv fresh slug True
      have "html_inv rest (ps @ [info], insert slug found_slugs, probed @ [slug])"
        by (auto simp: html_inv_def)
      then have "html_inv [] (html_loop net t rest
                    (ps @ [info], insert slug found_slugs, probed @ [slug]))"
        by (rule Cons.IH)
      with Inr True fresh show ?thesis by (simp add: st)
    next
      case False
      from inv fresh have "html_inv rest (ps, found_slugs, probed @ [slug])"
        by (auto simp: html_inv_def)
      then have "html_inv [] (html_loop net t rest (ps, found_slugs, probed @ [slug]))"
        by (rule Cons.IH)
      with Inr False fresh show ?thesis by (simp add: st)
    qed
  qed
qed

lemma html_stage_inv: "html_inv [] (fst (html_stage net t))"
proof -
  have "html_inv slugs ([], {}, [])" if "distinct slugs" for slugs
    using that by (simp add: html_inv_def)
  then have "html_inv [] (html_loop net t (slugs_from_html html) ([], {}, []))" for html
    by (intro html_loop_inv) (simp add: slugs_from_html_def)
  then show ?thesis
    by (auto simp: html_stage_def html_inv_def split: reply.splits)
qed

lemma collect_Inr:
  "collect rs ps = Inr ps' \<Longrightarrow>
   \<exists>infos. rs = map Inr infos \<and> ps' = ps @ filter is_installed infos"
proof (induction rs ps rule: collect.induct)
  case (1 ps)
  then show ?case by simp
next
  case (2 e rest ps)
  then show ?case by simp
next
  case (3 info rest ps)
  then obtain infos where "rest = map Inr infos"
    "ps' = (if is_installed info then ps @ [info] else ps) @ filter is_installed infos"
    by auto
  then have "Inr info # rest = map Inr (info # infos)
             \<and> ps' = ps @ filter is_installed (info # infos)"
    by simp
  then show ?case by (rule exI)
qed

lemma probes_slugs:
  "map (\<lambda>slug. fst (check_plugin net t slug)) slugs = map Inr infos \<Longrightarrow>
   map plugin_slug infos = slugs"
proof (induction slugs arbitrary: infos)
  case Nil
  then show ?case by simp
next
  case (Cons s slugs)
  then show ?case by (cases infos) (auto dest: check_plugin_slug)
qed

lemma count_list_distinct:
  "distinct xs \<Longrightarrow> count_list xs x = (if x \<in> set xs then 1 else 0)"
  by (induction xs) auto

lemma distinct_map_filter_sub:
  "distinct (map f xs) \<Longrightarrow> distinct (map f (filter P xs))"
  by (induction xs) auto

text \<open>
  Claim C7, as the code has it. Whenever the enumerator returns: every entry of the list
  is installed; \<open>total_found\<close> is the length of the list; the slugs of the plugins that
  the scraping stage confirmed are exactly \<open>found_slugs\<close>, and these plugins open the
  returned list; a slug in \<open>found_slugs\<close> is not among the candidates that are probed,
  and is handed to \<open>check_plugin\<close> exactly once in the whole run; and the slugs of the list are
  pairwise different provided the candidate list that was loaded has no entry twice
  (line 243 filters the candidates against \<open>found_slugs\<close> only, before any of them is
  probed).
\<close>

theorem enumerate_plugins_dedup:
  assumes "enumerate_plugins net file t scan_level = (Inr res, probed)"
  shows "(\<forall>p \<in> set (plugins res). is_installed p)
         \<and> total_found res = length (plugins res)
         \<and> set (map plugin_slug (html_plugins net t)) = html_found net t
         \<and> (\<exists>later. plugins res = html_plugins net t @ later)
         \<and> (\<forall>s \<in> html_found net t.
               s \<notin> set (plugins_to_check (load_common_plugins file scan_level) (html_found net t))
               \<and> count_list probed s = 1)
         \<and> (distinct (load_common_plugins file scan_level)
              \<longrightarrow> distinct (map plugin_slug (plugins res)))"
proof -
  obtain ps found_slugs probed_html methods
    where hs: "html_stage net t = ((ps, found_slugs, probed_html), methods)"
    by (cases "html_stage net t") auto
  let ?common = "load_common_plugins file scan_level"
  let ?to_check = "plugins_to_check ?common found_slugs"
  have found: "html_found net t = found_slugs" and first: "html_plugins net t = ps"
    by (simp_all add: html_found_def html_plugins_def hs)
  from html_stage_inv [of net t] have inv: "\<forall>p \<in> set ps. is_installed p"
    "distinct (map plugin_slug ps)" "set (map plugin_slug ps) = found_slugs"
    "found_slugs \<subseteq> set probed_html" "distinct probed_html"
    by (auto simp: hs html_inv_def)
  from assms obtain ps' where
    col: "collect (map (\<lambda>slug. fst (check_plugin net t slug)) ?to_check) ps = Inr ps'"
    and res: "res = \<lparr>plugins = ps', total_found = length ps',
                     detection_methods = methods @ [''common plugin checking (concurrent)'']\<rparr>"
    and probed: "probed = probed_html @ ?to_check"
    by (auto simp: enumerate_plugins_def hs Let_def split: sum.splits)
  from collect_Inr [OF col] obtain infos where
    infos: "map (\<lambda>slug. fst (check_plugin net t slug)) ?to_check = map Inr infos"
    and ps': "ps' = ps @ filter is_installed infos"
    by blast
  from infos have slugs: "map plugin_slug infos = ?to_check" by (rule probes_slugs)
  have installed: "\<forall>p \<in> set (plugins res). is_installed p"
    using inv(1) by (auto simp: res ps')
  have total: "total_found res = length (plugins res)"
    by (simp add: res)
  have once: "s \<notin> set ?to_check \<and> count_list probed s = 1" if "s \<in> found_slugs" for s
  proof -
    from that have "s \<notin> set ?to_check" by (simp add: plugins_to_check_def)
    moreover from that inv(4,5) have "count_list probed_html s = 1"
      by (auto simp: count_list_distinct)
    ultimately show ?thesis
      by (simp add: probed count_list_distinct [of "[]"] count_list_0_iff)
  qed
  have dist: "distinct (map plugin_slug (plugins res))" if "distinct ?common"
  proof -
    from that have "distinct ?to_check" by (simp add: plugins_to_check_def)
    then have "distinct (map plugin_slug (filter is_installed infos))"
      using slugs by (metis distinct_map_filter_sub)
    moreover have "set (map plugin_slug (filter is_installed infos)) \<subseteq> set ?to_check"
      using slugs by (metis filter_is_subset image_mono set_map)
    then have "set (map plugin_slug ps) \<inter> set (map plugin_slug (filter is_installed infos)) = {}"
      using inv(3) by (auto simp: plugins_to_check_def)
    ultimately show ?thesis using inv(2) by (simp add: res ps')
  qed
  have later: "\<exists>later. plugins res = ps @ later"
    by (simp add: res ps')
  from installed total once dist inv(3) later show ?thesis by (simp add: found first)
qed

text \<open>
  The theorem at a page that refers to \<open>akismet\<close> twice, with the candidates
  \<open>akismet\<close>, \<open>jetpack\<close> and \<open>woocommerce\<close> cut to the first two.
\<close>

theorem enumerate_plugins_dedup_witness:
  "enumerate_plugins blog_site (Lines [''akismet'', '' jetpack '', ''woocommerce''])
     ''http://wp.test'' 2 =
     (Inr \<lparr>plugins =
            [\<lparr>plugin_slug = ''akismet'', is_installed = True, version = Some ''5.3'',
              detected_by = Some ''readme.txt'',
              plugin_url = Some (readme_url ''http://wp.test'' ''akismet'')\<rparr>,
             \<lparr>plugin_slug = ''jetpack'', is_installed = True, version = None,
              detected_by = Some ''asset file'',
              plugin_url = Some (css_url ''http://wp.test'' ''jetpack'')\<rparr>],
           total_found = 2,
           detection_methods = [''HTML parsing'', ''common plugin checking (concurrent)'']\<rparr>,
      [''akismet'', ''jetpack''])
   \<and> html_found blog_site ''http://wp.test'' = {''akismet''}
   \<and> map plugin_slug (html_plugins blog_site ''http://wp.test'') = [''akismet'']
   \<and> count_list [''akismet'', ''jetpack''] ''akismet'' = 1
   \<and> distinct [''akismet'', ''jetpack'']"
proof -
  let ?res = "\<lparr>plugins =
            [\<lparr>plugin_slug = ''akismet'', is_installed = True, version = Some ''5.3'',
              detected_by = Some ''readme.txt'',
              plugin_url = Some (readme_url ''http://wp.test'' ''akismet'')\<rparr>,
             \<lparr>plugin_slug = ''jetpack'', is_installed = True, version = None,
              detected_by = Some ''asset file'',
              plugin_url = Some (css_url ''http://wp.test'' ''jetpack'')\<rparr>],
           total_found = 2,
           detection_methods = [''HTML parsing'', ''common plugin checking (concurrent)'']\<rparr>"
  have run: "enumerate_plugins blog_site (Lines [''akismet'', '' jetpack '', ''woocommerce''])
               ''http://wp.test'' 2 = (Inr ?res, [''akismet'', ''jetpack''])"
    by code_simp
  have found: "html_found blog_site ''http://wp.test'' = {''akismet''}"
    by code_simp
  have common: "load_common_plugins (Lines [''akismet'', '' jetpack '', ''woocommerce'']) 2
                  = [''akismet'', ''jetpack'']"
    by code_simp
  have first: "map plugin_slug (html_plugins blog_site ''http://wp.test'') = [''akismet'']"
    by code_simp
  from enumerate_plugins_dedup [OF run] run found common first show ?thesis
    by simp
qed

text \<open>
  Claim C7 as stated asks for pairwise different slugs in every run. A candidate file
  with the line \<open>jetpack\<close> twice, at a site where \<open>jetpack\<close> is installed and the root
  page does not answer, makes the list hold \<open>jetpack\<close> twice.
\<close>

theorem duplicate_candidates_counterexample:
  "fst (enumerate_plugins asset_site (Lines [''jetpack'', ''jetpack'']) ''http://wp.test'' 1000) =
     Inr \<lparr>plugins =
            [\<lparr>plugin_slug = ''jetpack'', is_installed = True, version = None,
              detected_by = Some ''asset file'',
              plugin_url = Some (css_url ''http://wp.test'' ''jetpack'')\<rparr>,
             \<lparr>plugin_slug = ''jetpack'', is_installed = True, version = None,
              detected_by = Some ''asset file'',
              plugin_url = Some (css_url ''http://wp.test'' ''jetpack'')\<rparr>],
           total_found = 2,
           detection_methods = [''common plugin checking (concurrent)'']\<rparr>"
  by code_simp

lemma plugin_slug_at_group:
  "plugin_slug_at s = Some g \<Longrightarrow> g \<noteq> [] \<and> (\<forall>c \<in> set g. slug_char c)"
  by (auto simp: plugin_slug_at_def Let_def split: option.splits if_splits dest: set_takeWhileD)

lemma findall_slugs_groups:
  "g \<in> set (findall_slugs html) \<Longrightarrow> g \<noteq> [] \<and> (\<forall>c \<in> set g. slug_char c)"
proof (induction html rule: findall_slugs.induct)
  case 1
  then show ?case by simp
next
  case (2 c cs)
  show ?case
  proof (cases "plugin_slug_at (c # cs)")
    case None
    with 2 show ?thesis by simp
  next
    case (Some h)
    with 2 have "g = h \<or> g \<in> set (findall_slugs (drop (length plugins_prefix + length h) (c # cs)))"
      by simp
    then show ?thesis
    proof
      assume "g = h"
      with Some show ?thesis using plugin_slug_at_group [of "c # cs" h] by simp
    next
      assume "g \<in> set (findall_slugs (drop (length plugins_prefix + length h) (c # cs)))"
      with Some "2.IH"(2) show ?thesis by blast
    qed
  qed
qed

text \<open>
  Claim C10, as the code has it. The prober neither rejects nor encodes a slug: for every
  slug it sends the GET of \<open>readme.txt\<close> under the plugin directory built with the slug as
  it is (line 63). What keeps a separator out of a probe is the pattern of the scraping
  stage alone: a slug scraped from a page is not empty and has no \<open>/\<close>.
\<close>

theorem slug_verbatim:
  "snd (check_plugin net target_url slug) \<noteq> []
   \<and> hd (snd (check_plugin net target_url slug)) =
       get_req (Urljoin (target_url @ ''/wp-content/plugins/'' @ slug @ ''/'') ''readme.txt'')
   \<and> (\<forall>s \<in> set (slugs_from_html html). s \<noteq> [] \<and> CHR ''/'' \<notin> set s)"
proof -
  have "s \<noteq> [] \<and> CHR ''/'' \<notin> set s" if "s \<in> set (slugs_from_html html)" for s
  proof -
    from that have "s \<noteq> [] \<and> (\<forall>c \<in> set s. slug_char c)"
      by (simp add: slugs_from_html_def findall_slugs_groups)
    then show ?thesis by (auto simp: slug_char_def)
  qed
  moreover have "snd (check_plugin net target_url slug) \<noteq> []
    \<and> hd (snd (check_plugin net target_url slug)) =
       get_req (Urljoin (target_url @ ''/wp-content/plugins/'' @ slug @ ''/'') ''readme.txt'')"
    by (auto simp: check_plugin_def asset_check_def send_def readme_url_def
          plugin_base_url_def
        split: reply.splits exn.splits)
  ultimately show ?thesis by blast
qed

text \<open>
  Claim C10 as stated: the slug \<open>../uploads\<close> has a separator, is probed, and stands
  unencoded in both requests.
\<close>

theorem raw_separator_counterexample:
  "CHR ''/'' \<in> set ''../uploads''
   \<and> snd (check_plugin dead_site ''http://wp.test'' ''../uploads'') =
       [get_req (Urljoin ''http://wp.test/wp-content/plugins/../uploads/'' ''readme.txt''),
        head_req (Urljoin ''http://wp.test/wp-content/plugins/../uploads/''
                    ''assets/css/../uploads.css'')]"
  by code_simp

text \<open>
  The theorem at the slug \<open>a/b\<close> and at a page that refers to \<open>akismet\<close>.
\<close>

theorem slug_verbatim_witness:
  "hd (snd (check_plugin dead_site ''http://wp.test'' ''a/b'')) =
       get_req (Urljoin ''http://wp.test/wp-content/plugins/a/b/'' ''readme.txt'')
   \<and> slugs_from_html blog_page = [''akismet'']
   \<and> CHR ''/'' \<notin> set ''akismet''"
proof -
  have s: "slugs_from_html blog_page = [''akismet'']"
    by code_simp
  from slug_verbatim [of dead_site "''http://wp.test''" "''a/b''" blog_page] s
  show ?thesis by simp
qed

end
